theory Spec2Isabelle
  imports Complex_Main
begin

section \<open>The lateral QP optimizer of the planning module\<close>

text \<open>
  This theory embeds \<^verbatim>\<open>OsqpLateralQPOptimizer::optimize\<close> and
  \<^verbatim>\<open>OsqpLateralQPOptimizer::CalculateKernel\<close> of
  \<^verbatim>\<open>modules/planning/math/finite_element_qp/osqp_lateral_qp_optimizer.cc\<close>.

  Conventions of the embedding:
  \<^item> \<^verbatim>\<open>double\<close> and \<^verbatim>\<open>c_float\<close> are the reals: rounding, infinities and NaN are
    not modelled, every arithmetic expression keeps the shape it has in the source.
  \<^item> \<^verbatim>\<open>int\<close> and \<^verbatim>\<open>c_int\<close> are the mathematical integers. The dense constraint
    matrix has \<open>6N \<times> 3N\<close> entries of eight bytes, so its allocation fails long before
    \<open>6N\<close> leaves the range of a 32-bit \<^verbatim>\<open>int\<close>; no run that builds a row wraps around.
  \<^item> A dense matrix and a C array carry their extent. A write outside the extent is
    undefined behaviour in C++ (Eigen checks it only when its assertions are compiled
    in): the construction leaves the stored values as they are and appends the offending
    index to a list of stray accesses, in the order of the writes. Every write of the
    construction comes before \<^verbatim>\<open>CHECK_EQ\<close>, so \<open>optimize\<close> ends a run whose construction
    has strayed as \<open>Out_of_range\<close> before it looks at the row counter.
  \<^item> The sparse conversion and the solver are code outside this file; they are
    parameters of the model (record \<open>collaborators\<close>). The solver hands back a primal
    vector, modelled as a list; a read past its end has no value and ends the run.
\<close>

subsection \<open>Configuration flags\<close>

record planning_gflags =
  FLAGS_weight_lateral_offset :: real
  FLAGS_weight_lateral_obstacle_distance :: real
  FLAGS_weight_lateral_derivative :: real
  FLAGS_weight_lateral_second_order_derivative :: real
  FLAGS_lateral_third_order_derivative_max :: real
  FLAGS_enable_osqp_debug :: bool

subsection \<open>Dense matrices and C arrays\<close>

record MatrixXd =
  rows :: int
  cols :: int
  coeff :: "int \<times> int \<Rightarrow> real"
  stray :: "(int \<times> int) list"

text \<open>\<^verbatim>\<open>MatrixXd::Zero(r, c)\<close>\<close>

definition MatrixXd_Zero :: "int \<Rightarrow> int \<Rightarrow> MatrixXd" where
  "MatrixXd_Zero r c = \<lparr>rows = r, cols = c, coeff = (\<lambda>_. 0), stray = []\<rparr>"

text \<open>\<^verbatim>\<open>m(r, c) = v\<close>\<close>

definition assign :: "int \<Rightarrow> int \<Rightarrow> real \<Rightarrow> MatrixXd \<Rightarrow> MatrixXd" where
  "assign r c v m =
     (if 0 \<le> r \<and> r < rows m \<and> 0 \<le> c \<and> c < cols m
      then m\<lparr>coeff := (coeff m)((r, c) := v)\<rparr>
      else m\<lparr>stray := stray m @ [(r, c)]\<rparr>)"

text \<open>
  A C array of \<open>extent\<close> cells (\<^verbatim>\<open>c_float lower_bounds[kNumConstraint]\<close>); a cell that
  was never written holds no value.
\<close>

record c_array =
  extent :: int
  cell :: "int \<rightharpoonup> real"
  stray_index :: "int list"

definition new_array :: "int \<Rightarrow> c_array" where
  "new_array k = \<lparr>extent = k, cell = Map.empty, stray_index = []\<rparr>"

text \<open>\<^verbatim>\<open>a[i] = v\<close>\<close>

definition store :: "int \<Rightarrow> real \<Rightarrow> c_array \<Rightarrow> c_array" where
  "store i v a =
     (if 0 \<le> i \<and> i < extent a
      then a\<lparr>cell := (cell a)(i \<mapsto> v)\<rparr>
      else a\<lparr>stray_index := stray_index a @ [i]\<rparr>)"

subsection \<open>The two loop headers of the file\<close>

text \<open>\<^verbatim>\<open>for (int i = 0; i + 1 < num_var; ++i) body\<close>, entered at \<open>i\<close>.\<close>

function for_pairs :: "int \<Rightarrow> (int \<Rightarrow> 's \<Rightarrow> 's) \<Rightarrow> int \<Rightarrow> 's \<Rightarrow> 's" where
  "for_pairs num_var body i s =
     (if i + 1 < num_var then for_pairs num_var body (i + 1) (body i s) else s)"
  by pat_completeness auto
termination
  by (relation "measure (\<lambda>(num_var, body, i, s). nat (num_var - i))") auto

text \<open>\<^verbatim>\<open>for (int i = 0; i < bound; ++i) body\<close>, entered at \<open>i\<close>.\<close>

function for_each :: "int \<Rightarrow> (int \<Rightarrow> 's \<Rightarrow> 's) \<Rightarrow> int \<Rightarrow> 's \<Rightarrow> 's" where
  "for_each bound body i s =
     (if i < bound then for_each bound body (i + 1) (body i s) else s)"
  by pat_completeness auto
termination
  by (relation "measure (\<lambda>(bound, body, i, s). nat (bound - i))") auto

declare for_pairs.simps [simp del]
declare for_each.simps [simp del]

subsection \<open>Construction of the constraints\<close>

text \<open>The locals of \<^verbatim>\<open>optimize\<close> that the construction writes.\<close>

record constraints =
  affine_constraint :: MatrixXd
  lower_bounds :: c_array
  upper_bounds :: c_array
  constraint_index :: int

text \<open>\<^verbatim>\<open>affine_constraint(r, c) = v\<close>\<close>

definition set_coeff :: "int \<Rightarrow> int \<Rightarrow> real \<Rightarrow> constraints \<Rightarrow> constraints" where
  "set_coeff r c v s = s\<lparr>affine_constraint := assign r c v (affine_constraint s)\<rparr>"

text \<open>\<^verbatim>\<open>lower_bounds[constraint_index] = v; upper_bounds[constraint_index] = w; ++constraint_index\<close>\<close>

definition set_bounds :: "real \<Rightarrow> real \<Rightarrow> constraints \<Rightarrow> constraints" where
  "set_bounds v w s =
     s\<lparr>lower_bounds := store (constraint_index s) v (lower_bounds s),
       upper_bounds := store (constraint_index s) w (upper_bounds s),
       constraint_index := constraint_index s + 1\<rparr>"

text \<open>\<^verbatim>\<open>// d_i+1'' - d_i''\<close>: the body of the first loop.\<close>

definition jerk_row :: "planning_gflags \<Rightarrow> real \<Rightarrow> int \<Rightarrow> int \<Rightarrow> constraints \<Rightarrow> constraints" where
  "jerk_row flags delta_s num_var i s =
     (let pprime_offset = 2 * num_var;
          row = constraint_index s;
          col = pprime_offset + i;
          s = set_coeff row col (- 1) s;
          s = set_coeff row (col + 1) 1 s
      in set_bounds (- FLAGS_lateral_third_order_derivative_max flags * delta_s)
           (FLAGS_lateral_third_order_derivative_max flags * delta_s) s)"

text \<open>\<^verbatim>\<open>// d_i+1' - d_i' - 0.5 * ds * (d_i'' + d_i+1'')\<close>: the body of the second loop.\<close>

definition velocity_row :: "real \<Rightarrow> int \<Rightarrow> int \<Rightarrow> constraints \<Rightarrow> constraints" where
  "velocity_row delta_s num_var i s =
     (let prime_offset = num_var;
          pprime_offset = 2 * num_var;
          s = set_coeff (constraint_index s) (prime_offset + i) (- 1) s;
          s = set_coeff (constraint_index s) (prime_offset + i + 1) 1 s;
          s = set_coeff (constraint_index s) (pprime_offset + i) (- 0.5 * delta_s) s;
          s = set_coeff (constraint_index s) (pprime_offset + i + 1) (- 0.5 * delta_s) s
      in set_bounds 0 0 s)"

text \<open>
  \<^verbatim>\<open>// d_i+1 - d_i - d_i' * ds - 1/3 * d_i'' * ds^2 - 1/6 * d_i+1'' * ds^2\<close>: the body of
  the third loop.
\<close>

definition position_row :: "real \<Rightarrow> int \<Rightarrow> int \<Rightarrow> constraints \<Rightarrow> constraints" where
  "position_row delta_s num_var i s =
     (let prime_offset = num_var;
          pprime_offset = 2 * num_var;
          s = set_coeff (constraint_index s) i (- 1) s;
          s = set_coeff (constraint_index s) (i + 1) 1 s;
          s = set_coeff (constraint_index s) (prime_offset + i) (- delta_s) s;
          s = set_coeff (constraint_index s) (pprime_offset + i) (- delta_s * delta_s / 3) s;
          s = set_coeff (constraint_index s) (pprime_offset + i + 1) (- delta_s * delta_s / 6) s
      in set_bounds 0 0 s)"

text \<open>The three rows that pin the first station to \<^verbatim>\<open>d_state\<close>.\<close>

definition pin_rows :: "real \<times> real \<times> real \<Rightarrow> int \<Rightarrow> constraints \<Rightarrow> constraints" where
  "pin_rows d_state num_var s =
     (let prime_offset = num_var;
          pprime_offset = 2 * num_var;
          s = set_coeff (constraint_index s) 0 1 s;
          s = set_bounds (fst d_state) (fst d_state) s;
          s = set_coeff (constraint_index s) prime_offset 1 s;
          s = set_bounds (fst (snd d_state)) (fst (snd d_state)) s;
          s = set_coeff (constraint_index s) pprime_offset 1 s
      in set_bounds (snd (snd d_state)) (snd (snd d_state)) s)"

text \<open>
  The body of the last loop. \<^verbatim>\<open>d_bounds[i]\<close> is read under the guard \<^verbatim>\<open>i < num_var\<close>,
  with \<open>0 \<le> i\<close> from the loop, so the read is inside the vector.
\<close>

definition LARGE_VALUE :: real where
  "LARGE_VALUE = 2.0"

definition box_row :: "(real \<times> real) list \<Rightarrow> int \<Rightarrow> int \<Rightarrow> constraints \<Rightarrow> constraints" where
  "box_row d_bounds num_var i s =
     (let s = set_coeff (constraint_index s) i 1 s
      in if i < num_var
         then set_bounds (fst (d_bounds ! nat i)) (snd (d_bounds ! nat i)) s
         else set_bounds (- LARGE_VALUE) LARGE_VALUE s)"

definition num_var_of :: "(real \<times> real) list \<Rightarrow> int" where
  "num_var_of d_bounds = int (length d_bounds)"

definition kNumParam :: "(real \<times> real) list \<Rightarrow> int" where
  "kNumParam d_bounds = 3 * int (length d_bounds)"

definition kNumConstraint :: "(real \<times> real) list \<Rightarrow> int" where
  "kNumConstraint d_bounds = kNumParam d_bounds + 3 * (num_var_of d_bounds - 1) + 3"

text \<open>Lines 42 to 120 of the source: the state when \<^verbatim>\<open>CHECK_EQ\<close> is reached.\<close>

definition build_constraints ::
  "planning_gflags \<Rightarrow> real \<times> real \<times> real \<Rightarrow> real \<Rightarrow> (real \<times> real) list \<Rightarrow> constraints" where
  "build_constraints flags d_state delta_s d_bounds =
     (let num_var = num_var_of d_bounds;
          s = \<lparr>affine_constraint = MatrixXd_Zero (kNumConstraint d_bounds) (kNumParam d_bounds),
               lower_bounds = new_array (kNumConstraint d_bounds),
               upper_bounds = new_array (kNumConstraint d_bounds),
               constraint_index = 0\<rparr>;
          s = for_pairs num_var (jerk_row flags delta_s num_var) 0 s;
          s = for_pairs num_var (velocity_row delta_s num_var) 0 s;
          s = for_pairs num_var (position_row delta_s num_var) 0 s;
          s = pin_rows d_state num_var s
      in for_each (kNumParam d_bounds) (box_row d_bounds num_var) 0 s)"

subsection \<open>The kernel\<close>

text \<open>The body of the loop of \<^verbatim>\<open>CalculateKernel\<close>.\<close>

definition kernel_entry :: "planning_gflags \<Rightarrow> (real \<times> real) list \<Rightarrow> int \<Rightarrow> MatrixXd \<Rightarrow> MatrixXd" where
  "kernel_entry flags d_bounds i kern =
     (if i < int (length d_bounds) then
        assign i i (2.0 * FLAGS_weight_lateral_offset flags +
                    2.0 * FLAGS_weight_lateral_obstacle_distance flags) kern
      else if i < 2 * int (length d_bounds) then
        assign i i (2.0 * FLAGS_weight_lateral_derivative flags) kern
      else
        assign i i (2.0 * FLAGS_weight_lateral_second_order_derivative flags) kern)"

text \<open>The dense matrix \<^verbatim>\<open>kernel\<close> when the loop of \<^verbatim>\<open>CalculateKernel\<close> is left.\<close>

definition kernel_matrix :: "planning_gflags \<Rightarrow> (real \<times> real) list \<Rightarrow> MatrixXd" where
  "kernel_matrix flags d_bounds =
     for_each (kNumParam d_bounds) (kernel_entry flags d_bounds) 0
       (MatrixXd_Zero (kNumParam d_bounds) (kNumParam d_bounds))"

subsection \<open>The solver's interface\<close>

record csc =
  csc_m :: int
  csc_n :: int
  csc_nzmax :: int
  csc_x :: "real list"
  csc_i :: "int list"
  csc_p :: "int list"

definition csc_matrix :: "int \<Rightarrow> int \<Rightarrow> int \<Rightarrow> real list \<Rightarrow> int list \<Rightarrow> int list \<Rightarrow> csc" where
  "csc_matrix m n nzmax x i p =
     \<lparr>csc_m = m, csc_n = n, csc_nzmax = nzmax, csc_x = x, csc_i = i, csc_p = p\<rparr>"

text \<open>The fields of \<^verbatim>\<open>OSQPSettings\<close> that \<^verbatim>\<open>optimize\<close> sets after the defaults.\<close>

record OSQPSettings =
  alpha :: real
  eps_abs :: real
  eps_rel :: real
  max_iter :: int
  polish :: bool
  verbose :: bool

record OSQPData =
  data_n :: int
  data_m :: int
  data_P :: csc
  data_q :: c_array
  data_A :: csc
  data_l :: c_array
  data_u :: c_array

text \<open>
  What \<^verbatim>\<open>optimize\<close> can reach of the workspace after \<^verbatim>\<open>osqp_solve\<close>: the primal
  vector \<^verbatim>\<open>work->solution->x\<close> and the status \<^verbatim>\<open>work->info->status_val\<close>.
\<close>

record OSQPWorkspace =
  solution_x :: "real list"
  info_status_val :: int

text \<open>
  The code outside this file: \<^verbatim>\<open>DenseToCSCMatrix\<close> (data, indices, indptr) and
  \<^verbatim>\<open>osqp_setup\<close> followed by \<^verbatim>\<open>osqp_solve\<close>.
\<close>

record collaborators =
  DenseToCSCMatrix :: "MatrixXd \<Rightarrow> real list \<times> int list \<times> int list"
  osqp :: "OSQPSettings \<Rightarrow> OSQPData \<Rightarrow> OSQPWorkspace"

definition CalculateKernel ::
  "collaborators \<Rightarrow> planning_gflags \<Rightarrow> (real \<times> real) list \<Rightarrow> real list \<times> int list \<times> int list" where
  "CalculateKernel ext flags d_bounds = DenseToCSCMatrix ext (kernel_matrix flags d_bounds)"

text \<open>The body of the loop that fills \<^verbatim>\<open>q\<close>.\<close>

definition q_entry :: "planning_gflags \<Rightarrow> (real \<times> real) list \<Rightarrow> int \<Rightarrow> int \<Rightarrow> c_array \<Rightarrow> c_array" where
  "q_entry flags d_bounds num_var i q =
     (if i < num_var then
        store i (- 2.0 * FLAGS_weight_lateral_obstacle_distance flags *
                 (fst (d_bounds ! nat i) + snd (d_bounds ! nat i))) q
      else store i 0.0 q)"

definition linear_term :: "planning_gflags \<Rightarrow> (real \<times> real) list \<Rightarrow> c_array" where
  "linear_term flags d_bounds =
     for_each (kNumParam d_bounds) (q_entry flags d_bounds (num_var_of d_bounds)) 0
       (new_array (kNumParam d_bounds))"

definition solver_settings :: "planning_gflags \<Rightarrow> OSQPSettings" where
  "solver_settings flags =
     \<lparr>alpha = 1.0, eps_abs = 0.00001, eps_rel = 0.00001, max_iter = 5000, polish = True,
      verbose = FLAGS_enable_osqp_debug flags\<rparr>"

text \<open>\<^verbatim>\<open>// Populate data\<close>\<close>

definition problem_data ::
  "collaborators \<Rightarrow> planning_gflags \<Rightarrow> real \<times> real \<times> real \<Rightarrow> real \<Rightarrow> (real \<times> real) list \<Rightarrow> OSQPData" where
  "problem_data ext flags d_state delta_s d_bounds =
     (let (P_data, P_indices, P_indptr) = CalculateKernel ext flags d_bounds;
          s = build_constraints flags d_state delta_s d_bounds;
          (A_data, A_indices, A_indptr) = DenseToCSCMatrix ext (affine_constraint s);
          n = kNumParam d_bounds;
          m = rows (affine_constraint s)
      in \<lparr>data_n = n, data_m = m,
          data_P = csc_matrix n n (int (length P_data)) P_data P_indices P_indptr,
          data_q = linear_term flags d_bounds,
          data_A = csc_matrix m n (int (length A_data)) A_data A_indices A_indptr,
          data_l = lower_bounds s, data_u = upper_bounds s\<rparr>)"

subsection \<open>The optimizer\<close>

text \<open>
  The members \<^verbatim>\<open>delta_s_\<close>, \<^verbatim>\<open>opt_d_\<close>, \<^verbatim>\<open>opt_d_prime_\<close> and \<^verbatim>\<open>opt_d_pprime_\<close>
  (a field name cannot end in an underscore here).
\<close>

record OsqpLateralQPOptimizer =
  stored_delta_s :: real
  opt_d :: "real list"
  opt_d_prime :: "real list"
  opt_d_pprime :: "real list"

datatype failure = CHECK_EQ_failed int int | Out_of_range

text \<open>\<^verbatim>\<open>CHECK_EQ(a, b)\<close> ends the process when the two differ.\<close>

definition CHECK_EQ :: "int \<Rightarrow> int \<Rightarrow> failure option" where
  "CHECK_EQ a b = (if a = b then None else Some (CHECK_EQ_failed a b))"

text \<open>Some write of the construction fell outside its matrix or array.\<close>

definition strayed :: "constraints \<Rightarrow> bool" where
  "strayed s \<longleftrightarrow>
     stray (affine_constraint s) \<noteq> [] \<or> stray_index (lower_bounds s) \<noteq> [] \<or>
     stray_index (upper_bounds s) \<noteq> []"

text \<open>\<^verbatim>\<open>work->solution->x[i]\<close>: a read outside the solver's vector has no value.\<close>

definition solution_at :: "real list \<Rightarrow> int \<Rightarrow> failure + real" where
  "solution_at x i = (if 0 \<le> i \<and> i < int (length x) then Inr (x ! nat i) else Inl Out_of_range)"

text \<open>\<^verbatim>\<open>v[i] = a\<close> on a \<^verbatim>\<open>std::vector\<close>, whose \<^verbatim>\<open>operator[]\<close> takes an unsigned index.\<close>

definition vector_assign :: "int \<Rightarrow> real \<Rightarrow> real list \<Rightarrow> failure + real list" where
  "vector_assign i a v =
     (if 0 \<le> i \<and> i < int (length v) then Inr (v[nat i := a]) else Inl Out_of_range)"

text \<open>The body of \<^verbatim>\<open>// extract primal results\<close>; a failed read ends the run.\<close>

definition extract_entry ::
  "real list \<Rightarrow> int \<Rightarrow> int \<Rightarrow> failure + OsqpLateralQPOptimizer \<Rightarrow> failure + OsqpLateralQPOptimizer" where
  "extract_entry x num_var i run =
     (case run of
        Inl e \<Rightarrow> Inl e
      | Inr self \<Rightarrow>
          (case solution_at x i of
             Inl e \<Rightarrow> Inl e
           | Inr a \<Rightarrow>
               (case solution_at x (i + num_var) of
                  Inl e \<Rightarrow> Inl e
                | Inr b \<Rightarrow>
                    (case solution_at x (i + 2 * num_var) of
                       Inl e \<Rightarrow> Inl e
                     | Inr c \<Rightarrow>
                         Inr (self\<lparr>opt_d := opt_d self @ [a],
                                   opt_d_prime := opt_d_prime self @ [b],
                                   opt_d_pprime := opt_d_pprime self @ [c]\<rparr>)))))"

text \<open>
  \<^verbatim>\<open>optimize\<close>: the instance before the call and the arguments, to the returned
  \<^verbatim>\<open>bool\<close> and the instance after the call. A stray write of the construction (lines 51
  to 120) ends the run before \<^verbatim>\<open>CHECK_EQ\<close> (line 122) is reached.
\<close>

definition optimize ::
  "collaborators \<Rightarrow> planning_gflags \<Rightarrow> OsqpLateralQPOptimizer \<Rightarrow> real \<times> real \<times> real \<Rightarrow> real \<Rightarrow>
   (real \<times> real) list \<Rightarrow> failure + bool \<times> OsqpLateralQPOptimizer" where
  "optimize ext flags self d_state delta_s d_bounds =
     (let self = self\<lparr>stored_delta_s := delta_s\<rparr>;
          num_var = num_var_of d_bounds;
          s = build_constraints flags d_state delta_s d_bounds
      in if strayed s then Inl Out_of_range
         else
           case CHECK_EQ (constraint_index s) (kNumConstraint d_bounds) of
             Some e \<Rightarrow> Inl e
           | None \<Rightarrow>
               (let work = osqp ext (solver_settings flags)
                             (problem_data ext flags d_state delta_s d_bounds)
                in case for_each num_var (extract_entry (solution_x work) num_var) 0 (Inr self) of
                     Inl e \<Rightarrow> Inl e
                   | Inr self \<Rightarrow>
                       (case vector_assign (num_var - 1) 0.0 (opt_d_prime self) of
                          Inl e \<Rightarrow> Inl e
                        | Inr d_prime \<Rightarrow>
                            (case vector_assign (num_var - 1) 0.0 (opt_d_pprime self) of
                               Inl e \<Rightarrow> Inl e
                             | Inr d_pprime \<Rightarrow>
                                 Inr (True, self\<lparr>opt_d_prime := d_prime,
                                                 opt_d_pprime := d_pprime\<rparr>)))))"

section \<open>The constraint rows as the specification lists them\<close>

text \<open>
  Section 4.2 of the specification gives the rows in five groups: \<open>N - 1\<close> jerk rows,
  \<open>N - 1\<close> velocity rows, \<open>N - 1\<close> position rows, three pin rows and \<open>3N\<close> box rows.
  \<open>spec_coeff\<close>, \<open>spec_lower\<close> and \<open>spec_upper\<close> follow that list, not the code; the
  code is compared with them below.
\<close>

definition spec_coeff :: "real \<Rightarrow> int \<Rightarrow> int \<times> int \<Rightarrow> real" where
  "spec_coeff ds N = (\<lambda>(r, c).
     if 0 \<le> r \<and> r < N - 1 then
       (if c = 2 * N + r + 1 then 1 else if c = 2 * N + r then - 1 else 0)
     else if N - 1 \<le> r \<and> r < 2 * (N - 1) then
       (let i = r - (N - 1) in
        if c = N + i + 1 then 1 else if c = N + i then - 1
        else if c = 2 * N + i \<or> c = 2 * N + i + 1 then - 0.5 * ds else 0)
     else if 2 * (N - 1) \<le> r \<and> r < 3 * (N - 1) then
       (let i = r - 2 * (N - 1) in
        if c = i + 1 then 1 else if c = i then - 1
        else if c = N + i then - ds
        else if c = 2 * N + i then - ds * ds / 3
        else if c = 2 * N + i + 1 then - ds * ds / 6 else 0)
     else if r = 3 * (N - 1) then (if c = 0 then 1 else 0)
     else if r = 3 * (N - 1) + 1 then (if c = N then 1 else 0)
     else if r = 3 * (N - 1) + 2 then (if c = 2 * N then 1 else 0)
     else if 3 * N \<le> r \<and> r < 6 * N then (if c = r - 3 * N then 1 else 0)
     else 0)"

definition spec_lower :: "real \<Rightarrow> real \<times> real \<times> real \<Rightarrow> real \<Rightarrow> (real \<times> real) list \<Rightarrow> int \<Rightarrow> real" where
  "spec_lower J st ds bnds r =
     (let N = int (length bnds) in
      if r < N - 1 then - J * ds
      else if r < 3 * (N - 1) then 0
      else if r = 3 * (N - 1) then fst st
      else if r = 3 * (N - 1) + 1 then fst (snd st)
      else if r = 3 * (N - 1) + 2 then snd (snd st)
      else if r < 4 * N then fst (bnds ! nat (r - 3 * N))
      else - 2)"

definition spec_upper :: "real \<Rightarrow> real \<times> real \<times> real \<Rightarrow> real \<Rightarrow> (real \<times> real) list \<Rightarrow> int \<Rightarrow> real" where
  "spec_upper J st ds bnds r =
     (let N = int (length bnds) in
      if r < N - 1 then J * ds
      else if r < 3 * (N - 1) then 0
      else if r = 3 * (N - 1) then fst st
      else if r = 3 * (N - 1) + 1 then fst (snd st)
      else if r = 3 * (N - 1) + 2 then snd (snd st)
      else if r < 4 * N then snd (bnds ! nat (r - 3 * N))
      else 2)"

text \<open>
  The loop invariant of the construction: every extent is as allocated and no access has
  strayed (\<open>shape\<close>); the rows below the row counter are the listed ones and the
  others are still zero, respectively unwritten (\<open>filled\<close>).
\<close>

definition shape :: "int \<Rightarrow> constraints \<Rightarrow> bool" where
  "shape N s \<longleftrightarrow>
     rows (affine_constraint s) = 6 * N \<and> cols (affine_constraint s) = 3 * N \<and>
     stray (affine_constraint s) = [] \<and>
     extent (lower_bounds s) = 6 * N \<and> stray_index (lower_bounds s) = [] \<and>
     extent (upper_bounds s) = 6 * N \<and> stray_index (upper_bounds s) = []"

definition filled :: "real \<Rightarrow> real \<times> real \<times> real \<Rightarrow> real \<Rightarrow> (real \<times> real) list \<Rightarrow> constraints \<Rightarrow> bool" where
  "filled J st ds bnds s \<longleftrightarrow>
     (\<forall>r c. coeff (affine_constraint s) (r, c) =
        (if 0 \<le> r \<and> r < constraint_index s then spec_coeff ds (int (length bnds)) (r, c) else 0)) \<and>
     (\<forall>r. cell (lower_bounds s) r =
        (if 0 \<le> r \<and> r < constraint_index s then Some (spec_lower J st ds bnds r) else None)) \<and>
     (\<forall>r. cell (upper_bounds s) r =
        (if 0 \<le> r \<and> r < constraint_index s then Some (spec_upper J st ds bnds r) else None))"

section \<open>Sample inputs\<close>

definition sample_flags :: planning_gflags where
  "sample_flags = \<lparr>FLAGS_weight_lateral_offset = 1, FLAGS_weight_lateral_obstacle_distance = 3,
     FLAGS_weight_lateral_derivative = 5, FLAGS_weight_lateral_second_order_derivative = 7,
     FLAGS_lateral_third_order_derivative_max = 4, FLAGS_enable_osqp_debug = False\<rparr>"

definition sample_bounds :: "(real \<times> real) list" where
  "sample_bounds = [(- 1, 1), (- 1, 1), (- 1, 1)]"

definition sample_ext :: "real list \<Rightarrow> int \<Rightarrow> collaborators" where
  "sample_ext xs status =
     \<lparr>DenseToCSCMatrix = (\<lambda>m. ([], [], [])),
      osqp = (\<lambda>settings data. \<lparr>solution_x = xs, info_status_val = status\<rparr>)\<rparr>"

definition sample_instance :: OsqpLateralQPOptimizer where
  "sample_instance = \<lparr>stored_delta_s = 0, opt_d = [], opt_d_prime = [], opt_d_pprime = []\<rparr>"

section \<open>The loops\<close>

lemma for_pairs_rule:
  assumes "P i s"
    and "\<And>j t. i \<le> j \<Longrightarrow> j + 1 < n \<Longrightarrow> P j t \<Longrightarrow> P (j + 1) (body j t)"
  shows "P (max i (n - 1)) (for_pairs n body i s)"
  using assms
proof (induction n body i s rule: for_pairs.induct)
  case (1 n body i s)
  show ?case
  proof (cases "i + 1 < n")
    case True
    have "P (max (i + 1) (n - 1)) (for_pairs n body (i + 1) (body i s))"
      using True 1 by (intro "1.IH") auto
    moreover have "max (i + 1) (n - 1) = max i (n - 1)" using True by simp
    ultimately show ?thesis using True by (simp add: for_pairs.simps [of n body i])
  next
    case False
    then have "max i (n - 1) = i" by simp
    then show ?thesis using False 1(2) by (simp add: for_pairs.simps [of n body i])
  qed
qed

lemma for_each_rule:
  assumes "P i s"
    and "\<And>j t. i \<le> j \<Longrightarrow> j < n \<Longrightarrow> P j t \<Longrightarrow> P (j + 1) (body j t)"
  shows "P (max i n) (for_each n body i s)"
  using assms
proof (induction n body i s rule: for_each.induct)
  case (1 n body i s)
  show ?case
  proof (cases "i < n")
    case True
    have "P (max (i + 1) n) (for_each n body (i + 1) (body i s))"
      using True 1 by (intro "1.IH") auto
    moreover have "max (i + 1) n = max i n" using True by simp
    ultimately show ?thesis using True by (simp add: for_each.simps [of n body i])
  next
    case False
    then have "max i n = i" by simp
    then show ?thesis using False 1(2) by (simp add: for_each.simps [of n body i])
  qed
qed


lemma set_coeff_frame [simp]:
  "lower_bounds (set_coeff r c v s) = lower_bounds s"
  "upper_bounds (set_coeff r c v s) = upper_bounds s"
  "constraint_index (set_coeff r c v s) = constraint_index s"
  "rows (affine_constraint (set_coeff r c v s)) = rows (affine_constraint s)"
  "cols (affine_constraint (set_coeff r c v s)) = cols (affine_constraint s)"
  by (simp_all add: set_coeff_def assign_def)

lemma set_coeff_inside:
  assumes "0 \<le> r" "r < rows (affine_constraint s)" "0 \<le> c" "c < cols (affine_constraint s)"
  shows "coeff (affine_constraint (set_coeff r c v s)) = (coeff (affine_constraint s))((r, c) := v)"
    and "stray (affine_constraint (set_coeff r c v s)) = stray (affine_constraint s)"
  using assms by (simp_all add: set_coeff_def assign_def)

lemma set_bounds_frame [simp]:
  "affine_constraint (set_bounds v w s) = affine_constraint s"
  "constraint_index (set_bounds v w s) = constraint_index s + 1"
  "extent (lower_bounds (set_bounds v w s)) = extent (lower_bounds s)"
  "extent (upper_bounds (set_bounds v w s)) = extent (upper_bounds s)"
  by (simp_all add: set_bounds_def store_def)

lemma set_bounds_inside:
  assumes "0 \<le> constraint_index s" "constraint_index s < extent (lower_bounds s)"
    "constraint_index s < extent (upper_bounds s)"
  shows "cell (lower_bounds (set_bounds v w s)) = (cell (lower_bounds s))(constraint_index s \<mapsto> v)"
    and "cell (upper_bounds (set_bounds v w s)) = (cell (upper_bounds s))(constraint_index s \<mapsto> w)"
    and "stray_index (lower_bounds (set_bounds v w s)) = stray_index (lower_bounds s)"
    and "stray_index (upper_bounds (set_bounds v w s)) = stray_index (upper_bounds s)"
  using assms by (simp_all add: set_bounds_def store_def)

lemma shape_set_coeff:
  assumes "shape N s" "0 \<le> r" "r < 6 * N" "0 \<le> c" "c < 3 * N"
  shows "shape N (set_coeff r c v s)"
  using assms by (simp add: shape_def set_coeff_inside)

lemma shape_set_bounds:
  assumes "shape N s" "0 \<le> constraint_index s" "constraint_index s < 6 * N"
  shows "shape N (set_bounds v w s)"
  using assms by (simp add: shape_def set_bounds_inside)

lemma coeff_set_coeff:
  assumes "shape N s" "0 \<le> r" "r < 6 * N" "0 \<le> c" "c < 3 * N"
  shows "coeff (affine_constraint (set_coeff r c v s)) = (coeff (affine_constraint s))((r, c) := v)"
  using assms by (simp add: shape_def set_coeff_inside)

lemma cell_set_bounds:
  assumes "shape N s" "0 \<le> constraint_index s" "constraint_index s < 6 * N"
  shows "cell (lower_bounds (set_bounds v w s)) = (cell (lower_bounds s))(constraint_index s \<mapsto> v)"
    and "cell (upper_bounds (set_bounds v w s)) = (cell (upper_bounds s))(constraint_index s \<mapsto> w)"
  using assms by (simp_all add: shape_def set_bounds_inside)

text \<open>One more row: what a loop body has to do to keep the invariant.\<close>

lemma filled_next_row:
  assumes old: "filled J st ds bnds s" and k: "0 \<le> constraint_index s"
    and idx: "constraint_index s' = constraint_index s + 1"
    and other: "\<And>r c. r \<noteq> constraint_index s \<Longrightarrow>
        coeff (affine_constraint s') (r, c) = coeff (affine_constraint s) (r, c)"
    and row: "\<And>c. coeff (affine_constraint s') (constraint_index s, c) =
        spec_coeff ds (int (length bnds)) (constraint_index s, c)"
    and lo: "cell (lower_bounds s') =
        (cell (lower_bounds s))(constraint_index s \<mapsto> spec_lower J st ds bnds (constraint_index s))"
    and up: "cell (upper_bounds s') =
        (cell (upper_bounds s))(constraint_index s \<mapsto> spec_upper J st ds bnds (constraint_index s))"
  shows "filled J st ds bnds s'"
proof -
  have a: "coeff (affine_constraint s') (r, c) =
      (if 0 \<le> r \<and> r < constraint_index s' then spec_coeff ds (int (length bnds)) (r, c) else 0)" for r c
  proof (cases "r = constraint_index s")
    case True
    then show ?thesis using row idx k by simp
  next
    case False
    then show ?thesis using other [of r c] old idx by (simp add: filled_def)
  qed
  have b: "cell (lower_bounds s') r =
      (if 0 \<le> r \<and> r < constraint_index s' then Some (spec_lower J st ds bnds r) else None)" for r
    using old k idx by (simp add: lo filled_def)
  have c: "cell (upper_bounds s') r =
      (if 0 \<le> r \<and> r < constraint_index s' then Some (spec_upper J st ds bnds r) else None)" for r
    using old k idx by (simp add: up filled_def)
  show ?thesis unfolding filled_def using a b c by blast
qed

lemma filled_zero_row:
  "filled J st ds bnds s \<Longrightarrow> coeff (affine_constraint s) (constraint_index s, c) = 0"
  by (simp add: filled_def)


lemma spec_coeff_jerk:
  "0 \<le> j \<Longrightarrow> j + 1 < N \<Longrightarrow>
   spec_coeff ds N (j, c) = (if c = 2 * N + j + 1 then 1 else if c = 2 * N + j then - 1 else 0)"
  by (simp add: spec_coeff_def)

lemma spec_coeff_velocity:
  "0 \<le> j \<Longrightarrow> j + 1 < N \<Longrightarrow>
   spec_coeff ds N (N - 1 + j, c) =
     (if c = 2 * N + j + 1 then - 0.5 * ds else if c = 2 * N + j then - 0.5 * ds
      else if c = N + j + 1 then 1 else if c = N + j then - 1 else 0)"
  by (simp add: spec_coeff_def)

lemma spec_coeff_position:
  "0 \<le> j \<Longrightarrow> j + 1 < N \<Longrightarrow>
   spec_coeff ds N (2 * (N - 1) + j, c) =
     (if c = 2 * N + j + 1 then - ds * ds / 6 else if c = 2 * N + j then - ds * ds / 3
      else if c = N + j then - ds else if c = j + 1 then 1 else if c = j then - 1 else 0)"
  by (simp add: spec_coeff_def)

lemma spec_coeff_pin:
  "1 \<le> N \<Longrightarrow> spec_coeff ds N (3 * (N - 1), c) = (if c = 0 then 1 else 0)"
  "1 \<le> N \<Longrightarrow> spec_coeff ds N (3 * (N - 1) + 1, c) = (if c = N then 1 else 0)"
  "1 \<le> N \<Longrightarrow> spec_coeff ds N (3 * (N - 1) + 2, c) = (if c = 2 * N then 1 else 0)"
  by (simp_all add: spec_coeff_def)

lemma spec_coeff_box:
  "0 \<le> j \<Longrightarrow> j < 3 * N \<Longrightarrow> spec_coeff ds N (3 * N + j, c) = (if c = j then 1 else 0)"
  by (simp add: spec_coeff_def)

lemma jerk_step:
  assumes sh: "shape N s" and fi: "filled J st ds bnds s"
    and N: "int (length bnds) = N" and J: "J = FLAGS_lateral_third_order_derivative_max flags"
    and k: "constraint_index s = j" and j: "0 \<le> j" "j + 1 < N"
  shows "shape N (jerk_row flags ds N j s) \<and> filled J st ds bnds (jerk_row flags ds N j s) \<and>
         constraint_index (jerk_row flags ds N j s) = j + 1"
proof -
  let ?s' = "jerk_row flags ds N j s"
  have sh': "shape N ?s'"
    using sh k j by (simp add: jerk_row_def Let_def shape_set_coeff shape_set_bounds)
  have idx: "constraint_index ?s' = constraint_index s + 1"
    by (simp add: jerk_row_def Let_def)
  have co: "coeff (affine_constraint ?s') =
      (coeff (affine_constraint s))((j, 2 * N + j) := - 1, (j, 2 * N + j + 1) := 1)"
    using sh k j by (simp add: jerk_row_def Let_def shape_set_coeff coeff_set_coeff [where N = N])
  have lo: "cell (lower_bounds ?s') = (cell (lower_bounds s))(j \<mapsto> - J * ds)"
    and up: "cell (upper_bounds ?s') = (cell (upper_bounds s))(j \<mapsto> J * ds)"
    using sh k j J
    by (simp_all add: jerk_row_def Let_def shape_set_coeff cell_set_bounds [where N = N])
  have "filled J st ds bnds ?s'"
  proof (rule filled_next_row [OF fi _ idx])
    show "0 \<le> constraint_index s" using k j by simp
    show "coeff (affine_constraint ?s') (r, c) = coeff (affine_constraint s) (r, c)"
      if "r \<noteq> constraint_index s" for r c
      using that k by (simp add: co)
    show "coeff (affine_constraint ?s') (constraint_index s, c) =
        spec_coeff ds (int (length bnds)) (constraint_index s, c)" for c
      unfolding N k spec_coeff_jerk [OF j] co
      using filled_zero_row [OF fi, of c, unfolded k] j by simp
    show "cell (lower_bounds ?s') = (cell (lower_bounds s))
        (constraint_index s \<mapsto> spec_lower J st ds bnds (constraint_index s))"
      using k j N by (simp add: lo spec_lower_def)
    show "cell (upper_bounds ?s') = (cell (upper_bounds s))
        (constraint_index s \<mapsto> spec_upper J st ds bnds (constraint_index s))"
      using k j N by (simp add: up spec_upper_def)
  qed
  with sh' idx k show ?thesis by simp
qed


lemma velocity_step:
  assumes sh: "shape N s" and fi: "filled J st ds bnds s"
    and N: "int (length bnds) = N"
    and k: "constraint_index s = N - 1 + j" and j: "0 \<le> j" "j + 1 < N"
  shows "shape N (velocity_row ds N j s) \<and> filled J st ds bnds (velocity_row ds N j s) \<and>
         constraint_index (velocity_row ds N j s) = N - 1 + (j + 1)"
proof -
  let ?s' = "velocity_row ds N j s"
  let ?k = "N - 1 + j"
  have sh': "shape N ?s'"
    using sh k j by (simp add: velocity_row_def Let_def shape_set_coeff shape_set_bounds)
  have idx: "constraint_index ?s' = constraint_index s + 1"
    by (simp add: velocity_row_def Let_def)
  have co: "coeff (affine_constraint ?s') =
      (coeff (affine_constraint s))((?k, N + j) := - 1, (?k, N + j + 1) := 1,
         (?k, 2 * N + j) := - 0.5 * ds, (?k, 2 * N + j + 1) := - 0.5 * ds)"
    using sh k j by (simp add: velocity_row_def Let_def shape_set_coeff coeff_set_coeff [where N = N])
  have lo: "cell (lower_bounds ?s') = (cell (lower_bounds s))(?k \<mapsto> 0)"
    and up: "cell (upper_bounds ?s') = (cell (upper_bounds s))(?k \<mapsto> 0)"
    using sh k j
    by (simp_all add: velocity_row_def Let_def shape_set_coeff cell_set_bounds [where N = N])
  have "filled J st ds bnds ?s'"
  proof (rule filled_next_row [OF fi _ idx])
    show "0 \<le> constraint_index s" using k j by simp
    show "coeff (affine_constraint ?s') (r, c) = coeff (affine_constraint s) (r, c)"
      if "r \<noteq> constraint_index s" for r c
      using that k by (simp add: co)
    show "coeff (affine_constraint ?s') (constraint_index s, c) =
        spec_coeff ds (int (length bnds)) (constraint_index s, c)" for c
      unfolding N k spec_coeff_velocity [OF j] co
      using filled_zero_row [OF fi, of c, unfolded k] j by simp
    show "cell (lower_bounds ?s') = (cell (lower_bounds s))
        (constraint_index s \<mapsto> spec_lower J st ds bnds (constraint_index s))"
      using k j N by (simp add: lo spec_lower_def)
    show "cell (upper_bounds ?s') = (cell (upper_bounds s))
        (constraint_index s \<mapsto> spec_upper J st ds bnds (constraint_index s))"
      using k j N by (simp add: up spec_upper_def)
  qed
  with sh' idx k show ?thesis by simp
qed

lemma position_step:
  assumes sh: "shape N s" and fi: "filled J st ds bnds s"
    and N: "int (length bnds) = N"
    and k: "constraint_index s = 2 * (N - 1) + j" and j: "0 \<le> j" "j + 1 < N"
  shows "shape N (position_row ds N j s) \<and> filled J st ds bnds (position_row ds N j s) \<and>
         constraint_index (position_row ds N j s) = 2 * (N - 1) + (j + 1)"
proof -
  let ?s' = "position_row ds N j s"
  let ?k = "2 * (N - 1) + j"
  have sh': "shape N ?s'"
    using sh k j by (simp add: position_row_def Let_def shape_set_coeff shape_set_bounds)
  have idx: "constraint_index ?s' = constraint_index s + 1"
    by (simp add: position_row_def Let_def)
  have co: "coeff (affine_constraint ?s') =
      (coeff (affine_constraint s))((?k, j) := - 1, (?k, j + 1) := 1, (?k, N + j) := - ds,
         (?k, 2 * N + j) := - ds * ds / 3, (?k, 2 * N + j + 1) := - ds * ds / 6)"
    using sh k j by (simp add: position_row_def Let_def shape_set_coeff coeff_set_coeff [where N = N])
  have lo: "cell (lower_bounds ?s') = (cell (lower_bounds s))(?k \<mapsto> 0)"
    and up: "cell (upper_bounds ?s') = (cell (upper_bounds s))(?k \<mapsto> 0)"
    using sh k j
    by (simp_all add: position_row_def Let_def shape_set_coeff cell_set_bounds [where N = N])
  have "filled J st ds bnds ?s'"
  proof (rule filled_next_row [OF fi _ idx])
    show "0 \<le> constraint_index s" using k j by simp
    show "coeff (affine_constraint ?s') (r, c) = coeff (affine_constraint s) (r, c)"
      if "r \<noteq> constraint_index s" for r c
      using that k by (simp add: co)
    show "coeff (affine_constraint ?s') (constraint_index s, c) =
        spec_coeff ds (int (length bnds)) (constraint_index s, c)" for c
      unfolding N k spec_coeff_position [OF j] co
      using filled_zero_row [OF fi, of c, unfolded k] j by simp
    show "cell (lower_bounds ?s') = (cell (lower_bounds s))
        (constraint_index s \<mapsto> spec_lower J st ds bnds (constraint_index s))"
      using k j N by (simp add: lo spec_lower_def)
    show "cell (upper_bounds ?s') = (cell (upper_bounds s))
        (constraint_index s \<mapsto> spec_upper J st ds bnds (constraint_index s))"
      using k j N by (simp add: up spec_upper_def)
  qed
  with sh' idx k show ?thesis by simp
qed

lemma box_step:
  assumes sh: "shape N s" and fi: "filled J st ds bnds s"
    and N: "int (length bnds) = N"
    and k: "constraint_index s = 3 * N + j" and j: "0 \<le> j" "j < 3 * N"
  shows "shape N (box_row bnds N j s) \<and> filled J st ds bnds (box_row bnds N j s) \<and>
         constraint_index (box_row bnds N j s) = 3 * N + (j + 1)"
proof -
  let ?s' = "box_row bnds N j s"
  let ?k = "3 * N + j"
  have sh': "shape N ?s'"
    using sh k j by (simp add: box_row_def Let_def shape_set_coeff shape_set_bounds)
  have idx: "constraint_index ?s' = constraint_index s + 1"
    by (simp add: box_row_def Let_def)
  have co: "coeff (affine_constraint ?s') = (coeff (affine_constraint s))((?k, j) := 1)"
    using sh k j by (simp add: box_row_def Let_def shape_set_coeff coeff_set_coeff [where N = N])
  have lo: "cell (lower_bounds ?s') =
      (cell (lower_bounds s))(?k \<mapsto> if j < N then fst (bnds ! nat j) else - 2)"
    and up: "cell (upper_bounds ?s') =
      (cell (upper_bounds s))(?k \<mapsto> if j < N then snd (bnds ! nat j) else 2)"
    using sh k j
    by (simp_all add: box_row_def Let_def LARGE_VALUE_def shape_set_coeff
        cell_set_bounds [where N = N])
  have "filled J st ds bnds ?s'"
  proof (rule filled_next_row [OF fi _ idx])
    show "0 \<le> constraint_index s" using k j by simp
    show "coeff (affine_constraint ?s') (r, c) = coeff (affine_constraint s) (r, c)"
      if "r \<noteq> constraint_index s" for r c
      using that k by (simp add: co)
    show "coeff (affine_constraint ?s') (constraint_index s, c) =
        spec_coeff ds (int (length bnds)) (constraint_index s, c)" for c
      unfolding N k spec_coeff_box [OF j] co
      using filled_zero_row [OF fi, of c, unfolded k] j by simp
    show "cell (lower_bounds ?s') = (cell (lower_bounds s))
        (constraint_index s \<mapsto> spec_lower J st ds bnds (constraint_index s))"
      using k j N by (simp add: lo spec_lower_def)
    show "cell (upper_bounds ?s') = (cell (upper_bounds s))
        (constraint_index s \<mapsto> spec_upper J st ds bnds (constraint_index s))"
      using k j N by (simp add: up spec_upper_def)
  qed
  with sh' idx k show ?thesis by simp
qed


lemma unit_row_step:
  assumes sh: "shape N s" and fi: "filled J st ds bnds s"
    and N: "int (length bnds) = N"
    and k: "constraint_index s = k" "0 \<le> k" "k < 6 * N" and col: "0 \<le> col" "col < 3 * N"
    and spec: "\<And>c. spec_coeff ds N (k, c) = (if c = col then 1 else 0)"
    and v: "spec_lower J st ds bnds k = v" and w: "spec_upper J st ds bnds k = w"
  shows "shape N (set_bounds v w (set_coeff k col 1 s)) \<and>
         filled J st ds bnds (set_bounds v w (set_coeff k col 1 s)) \<and>
         constraint_index (set_bounds v w (set_coeff k col 1 s)) = k + 1"
proof -
  let ?s' = "set_bounds v w (set_coeff k col 1 s)"
  have sh': "shape N ?s'"
    using sh k col by (simp add: shape_set_coeff shape_set_bounds)
  have idx: "constraint_index ?s' = constraint_index s + 1"
    by simp
  have co: "coeff (affine_constraint (set_coeff k col 1 s)) = (coeff (affine_constraint s))((k, col) := 1)"
    using sh k col by (simp add: coeff_set_coeff [where N = N])
  have lo: "cell (lower_bounds ?s') = (cell (lower_bounds s))(k \<mapsto> v)"
    and up: "cell (upper_bounds ?s') = (cell (upper_bounds s))(k \<mapsto> w)"
    using sh k col by (simp_all add: shape_set_coeff cell_set_bounds [where N = N])
  have "filled J st ds bnds ?s'"
  proof (rule filled_next_row [OF fi _ idx])
    show "0 \<le> constraint_index s" using k by simp
    show "coeff (affine_constraint ?s') (r, c) = coeff (affine_constraint s) (r, c)"
      if "r \<noteq> constraint_index s" for r c
      using that k by (simp add: co)
    show "coeff (affine_constraint ?s') (constraint_index s, c) =
        spec_coeff ds (int (length bnds)) (constraint_index s, c)" for c
      unfolding N k spec
      using filled_zero_row [OF fi, of c, unfolded k] by (simp add: co)
    show "cell (lower_bounds ?s') = (cell (lower_bounds s))
        (constraint_index s \<mapsto> spec_lower J st ds bnds (constraint_index s))"
      using k v by (simp add: lo)
    show "cell (upper_bounds ?s') = (cell (upper_bounds s))
        (constraint_index s \<mapsto> spec_upper J st ds bnds (constraint_index s))"
      using k w by (simp add: up)
  qed
  with sh' idx k show ?thesis by simp
qed

lemma pin_step:
  assumes sh: "shape N s" and fi: "filled J st ds bnds s"
    and N: "int (length bnds) = N" "1 \<le> N"
    and k: "constraint_index s = 3 * (N - 1)"
  shows "shape N (pin_rows st N s) \<and> filled J st ds bnds (pin_rows st N s) \<and>
         constraint_index (pin_rows st N s) = 3 * N"
proof -
  let ?k = "3 * (N - 1)"
  define s1 where "s1 = set_bounds (fst st) (fst st) (set_coeff ?k 0 1 s)"
  define s2 where "s2 = set_bounds (fst (snd st)) (fst (snd st)) (set_coeff (?k + 1) N 1 s1)"
  define s3 where "s3 = set_bounds (snd (snd st)) (snd (snd st)) (set_coeff (?k + 1 + 1) (2 * N) 1 s2)"
  have 1: "shape N s1 \<and> filled J st ds bnds s1 \<and> constraint_index s1 = ?k + 1"
    unfolding s1_def
  proof (rule unit_row_step [OF sh fi N(1) k])
    show "spec_coeff ds N (?k, c) = (if c = 0 then 1 else 0)" for c
      by (rule spec_coeff_pin(1) [OF N(2)])
  qed (use N in \<open>simp_all add: spec_lower_def spec_upper_def\<close>)
  have 2: "shape N s2 \<and> filled J st ds bnds s2 \<and> constraint_index s2 = ?k + 1 + 1"
    unfolding s2_def
  proof (rule unit_row_step [where N = N])
    show "spec_coeff ds N (?k + 1, c) = (if c = N then 1 else 0)" for c
      by (rule spec_coeff_pin(2) [OF N(2)])
  qed (use N 1 in \<open>simp_all add: spec_lower_def spec_upper_def\<close>)
  have 3: "shape N s3 \<and> filled J st ds bnds s3 \<and> constraint_index s3 = ?k + 1 + 1 + 1"
    unfolding s3_def
  proof (rule unit_row_step [where N = N])
    show "spec_coeff ds N (?k + 1 + 1, c) = (if c = 2 * N then 1 else 0)" for c
      using spec_coeff_pin(3) [OF N(2), of ds c] by (simp add: add.assoc)
  qed (use N 2 in \<open>simp_all add: spec_lower_def spec_upper_def\<close>)
  have "pin_rows st N s = s3"
    using k 1 2 by (simp add: pin_rows_def Let_def s1_def s2_def s3_def)
  with 3 show ?thesis by simp
qed

section \<open>The construction refines the specification's rows\<close>

lemma start_ok:
  fixes bnds :: "(real \<times> real) list"
  defines "s0 \<equiv> \<lparr>affine_constraint = MatrixXd_Zero (kNumConstraint bnds) (kNumParam bnds),
     lower_bounds = new_array (kNumConstraint bnds),
     upper_bounds = new_array (kNumConstraint bnds),
     constraint_index = 0\<rparr>"
  shows "shape (int (length bnds)) s0 \<and> filled J st ds bnds s0 \<and> constraint_index s0 = 0"
  by (simp add: s0_def shape_def filled_def MatrixXd_Zero_def new_array_def
      kNumConstraint_def kNumParam_def num_var_of_def)

lemma build_constraints_refines:
  fixes flags :: planning_gflags and st :: "real \<times> real \<times> real" and ds :: real
    and bnds :: "(real \<times> real) list"
  assumes ne: "bnds \<noteq> []"
  defines "N \<equiv> int (length bnds)"
  defines "J \<equiv> FLAGS_lateral_third_order_derivative_max flags"
  defines "s \<equiv> build_constraints flags st ds bnds"
  shows "shape N s \<and> filled J st ds bnds s \<and> constraint_index s = 6 * N"
proof -
  have N: "int (length bnds) = N" "1 \<le> N"
    using ne by (simp_all add: N_def Suc_le_eq)
  define s0 where "s0 = \<lparr>affine_constraint = MatrixXd_Zero (kNumConstraint bnds) (kNumParam bnds),
     lower_bounds = new_array (kNumConstraint bnds),
     upper_bounds = new_array (kNumConstraint bnds),
     constraint_index = 0\<rparr>"
  define s1 where "s1 = for_pairs N (jerk_row flags ds N) 0 s0"
  define s2 where "s2 = for_pairs N (velocity_row ds N) 0 s1"
  define s3 where "s3 = for_pairs N (position_row ds N) 0 s2"
  define s4 where "s4 = pin_rows st N s3"
  let ?P = "\<lambda>base j t. shape N t \<and> filled J st ds bnds t \<and> constraint_index t = base + j"
  have 1: "?P 0 (max 0 (N - 1)) s1"
    unfolding s1_def
  proof (rule for_pairs_rule [where P = "?P 0"])
    show "?P 0 0 s0" using start_ok [where bnds = bnds and J = J and st = st and ds = ds]
      by (simp add: N_def s0_def)
    show "?P 0 (j + 1) (jerk_row flags ds N j t)" if "0 \<le> j" "j + 1 < N" "?P 0 j t" for j t
      using jerk_step [of N t J st ds bnds flags j] that N by (simp add: J_def)
  qed
  have 2: "?P (N - 1) (max 0 (N - 1)) s2"
    unfolding s2_def
  proof (rule for_pairs_rule [where P = "?P (N - 1)"])
    show "?P (N - 1) 0 s1" using 1 N by simp
    show "?P (N - 1) (j + 1) (velocity_row ds N j t)" if "0 \<le> j" "j + 1 < N" "?P (N - 1) j t" for j t
      using velocity_step [of N t J st ds bnds j] that N by simp
  qed
  have 3: "?P (2 * (N - 1)) (max 0 (N - 1)) s3"
    unfolding s3_def
  proof (rule for_pairs_rule [where P = "?P (2 * (N - 1))"])
    show "?P (2 * (N - 1)) 0 s2" using 2 N by simp
    show "?P (2 * (N - 1)) (j + 1) (position_row ds N j t)"
      if "0 \<le> j" "j + 1 < N" "?P (2 * (N - 1)) j t" for j t
      using position_step [of N t J st ds bnds j] that N by simp
  qed
  have 4: "?P (3 * N) 0 s4"
    unfolding s4_def using pin_step [of N s3 J st ds bnds] 3 N by simp
  have 5: "?P (3 * N) (max 0 (3 * N)) (for_each (3 * N) (box_row bnds N) 0 s4)"
  proof (rule for_each_rule [where P = "?P (3 * N)"])
    show "?P (3 * N) 0 s4" by (rule 4)
    show "?P (3 * N) (j + 1) (box_row bnds N j t)" if "0 \<le> j" "j < 3 * N" "?P (3 * N) j t" for j t
      using box_step [of N t J st ds bnds j] that N by simp
  qed
  have "s = for_each (3 * N) (box_row bnds N) 0 s4"
    by (simp add: s_def build_constraints_def Let_def s1_def s2_def s3_def s4_def s0_def
        num_var_of_def kNumParam_def N_def)
  with 5 N show ?thesis by simp
qed

lemma build_constraints_row:
  assumes ne: "d_bounds \<noteq> []" and r: "0 \<le> r" "r < 6 * int (length d_bounds)"
  shows "coeff (affine_constraint (build_constraints flags d_state delta_s d_bounds)) (r, c) =
           spec_coeff delta_s (int (length d_bounds)) (r, c)"
    and "cell (lower_bounds (build_constraints flags d_state delta_s d_bounds)) r =
           Some (spec_lower (FLAGS_lateral_third_order_derivative_max flags) d_state delta_s d_bounds r)"
    and "cell (upper_bounds (build_constraints flags d_state delta_s d_bounds)) r =
           Some (spec_upper (FLAGS_lateral_third_order_derivative_max flags) d_state delta_s d_bounds r)"
  using build_constraints_refines [OF ne, of flags d_state delta_s] r
  by (simp_all add: filled_def)

section \<open>Kernel and linear term\<close>

lemma kernel_matrix_inv:
  fixes flags d_bounds
  defines "N \<equiv> int (length d_bounds)"
  defines "val \<equiv> \<lambda>i. if i < N then 2.0 * FLAGS_weight_lateral_offset flags +
                    2.0 * FLAGS_weight_lateral_obstacle_distance flags
          else if i < 2 * N then 2.0 * FLAGS_weight_lateral_derivative flags
          else 2.0 * FLAGS_weight_lateral_second_order_derivative flags"
  shows "rows (kernel_matrix flags d_bounds) = 3 * N \<and> cols (kernel_matrix flags d_bounds) = 3 * N \<and>
     stray (kernel_matrix flags d_bounds) = [] \<and>
     (\<forall>r c. coeff (kernel_matrix flags d_bounds) (r, c) =
        (if r = c \<and> 0 \<le> r \<and> r < 3 * N then val r else 0))"
proof -
  let ?P = "\<lambda>j m. rows m = 3 * N \<and> cols m = 3 * N \<and> stray m = [] \<and>
     (\<forall>r c. coeff m (r, c) = (if r = c \<and> 0 \<le> r \<and> r < j then val r else 0))"
  have "?P (max 0 (3 * N)) (kernel_matrix flags d_bounds)"
    unfolding kernel_matrix_def kNumParam_def N_def [symmetric]
  proof (rule for_each_rule [where P = ?P])
    show "?P 0 (MatrixXd_Zero (3 * N) (3 * N))"
      by (simp add: MatrixXd_Zero_def)
    show "?P (j + 1) (kernel_entry flags d_bounds j t)" if "0 \<le> j" "j < 3 * N" "?P j t" for j t
      using that by (auto simp: kernel_entry_def assign_def val_def N_def)
  qed
  moreover have "0 \<le> N" by (simp add: N_def)
  ultimately show ?thesis by simp
qed

lemma linear_term_inv:
  fixes flags d_bounds
  defines "N \<equiv> int (length d_bounds)"
  defines "val \<equiv> \<lambda>i. if i < N then - 2.0 * FLAGS_weight_lateral_obstacle_distance flags *
                 (fst (d_bounds ! nat i) + snd (d_bounds ! nat i)) else 0"
  shows "extent (linear_term flags d_bounds) = 3 * N \<and> stray_index (linear_term flags d_bounds) = [] \<and>
     (\<forall>i. cell (linear_term flags d_bounds) i = (if 0 \<le> i \<and> i < 3 * N then Some (val i) else None))"
proof -
  let ?P = "\<lambda>j q. extent q = 3 * N \<and> stray_index q = [] \<and>
     (\<forall>i. cell q i = (if 0 \<le> i \<and> i < j then Some (val i) else None))"
  have "?P (max 0 (3 * N)) (linear_term flags d_bounds)"
    unfolding linear_term_def kNumParam_def num_var_of_def N_def [symmetric]
  proof (rule for_each_rule [where P = ?P])
    show "?P 0 (new_array (3 * N))"
      by (simp add: new_array_def)
    show "?P (j + 1) (q_entry flags d_bounds N j t)" if "0 \<le> j" "j < 3 * N" "?P j t" for j t
      using that by (auto simp: q_entry_def store_def val_def)
  qed
  moreover have "0 \<le> N" by (simp add: N_def)
  ultimately show ?thesis by simp
qed


lemma data_q_problem_data:
  "data_q (problem_data ext flags d_state delta_s d_bounds) = linear_term flags d_bounds"
  by (simp add: problem_data_def Let_def split: prod.splits)

section \<open>Extraction of the primal vector\<close>

lemma solution_at_inside:
  "0 \<le> i \<Longrightarrow> i < int (length x) \<Longrightarrow> solution_at x i = Inr (x ! nat i)"
  by (simp add: solution_at_def)

lemma take_next:
  assumes "0 \<le> j" "nat b + nat j < length x" "0 \<le> b"
  shows "take (nat (j + 1)) (drop (nat b) x) = take (nat j) (drop (nat b) x) @ [x ! nat (j + b)]"
proof -
  have "nat (j + 1) = Suc (nat j)" using assms by simp
  moreover have "nat j < length (drop (nat b) x)" using assms by simp
  moreover have "drop (nat b) x ! nat j = x ! nat (j + b)"
    using assms by (simp add: nat_add_distrib add.commute)
  ultimately show ?thesis by (simp add: take_Suc_conv_app_nth)
qed

lemma extract_all:
  assumes len: "3 * N \<le> int (length x)" and N: "0 \<le> N"
  shows "for_each N (extract_entry x N) 0 (Inr self) =
     Inr (self\<lparr>opt_d := opt_d self @ take (nat N) x,
               opt_d_prime := opt_d_prime self @ take (nat N) (drop (nat N) x),
               opt_d_pprime := opt_d_pprime self @ take (nat N) (drop (nat (2 * N)) x)\<rparr>)"
proof -
  let ?P = "\<lambda>j run. run =
     Inr (self\<lparr>opt_d := opt_d self @ take (nat j) x,
               opt_d_prime := opt_d_prime self @ take (nat j) (drop (nat N) x),
               opt_d_pprime := opt_d_pprime self @ take (nat j) (drop (nat (2 * N)) x)\<rparr>)"
  have "?P (max 0 N) (for_each N (extract_entry x N) 0 (Inr self))"
  proof (rule for_each_rule [where P = ?P])
    show "?P 0 (Inr self)" by simp
    show "?P (j + 1) (extract_entry x N j t)" if j: "0 \<le> j" "j < N" and t: "?P j t" for j t
    proof -
      have a: "take (nat (j + 1)) x = take (nat j) x @ [x ! nat j]"
        using take_next [of j 0 x] j len by simp
      have b: "take (nat (j + 1)) (drop (nat N) x) = take (nat j) (drop (nat N) x) @ [x ! nat (j + N)]"
        using j len N by (intro take_next) auto
      have c: "take (nat (j + 1)) (drop (nat (2 * N)) x) =
          take (nat j) (drop (nat (2 * N)) x) @ [x ! nat (j + 2 * N)]"
        using j len N by (intro take_next) auto
      have "solution_at x j = Inr (x ! nat j)"
        "solution_at x (j + N) = Inr (x ! nat (j + N))"
        "solution_at x (j + 2 * N) = Inr (x ! nat (j + 2 * N))"
        using j len N by (simp_all add: solution_at_inside)
      then show ?thesis
        unfolding a b c by (simp add: t extract_entry_def)
    qed
  qed
  then show ?thesis using N by simp
qed

lemma extract_lengths:
  assumes "for_each N (extract_entry x N) 0 (Inr self) = Inr self'" and N: "0 \<le> N"
  shows "length (opt_d self') = length (opt_d self) + nat N \<and>
         length (opt_d_prime self') = length (opt_d_prime self) + nat N \<and>
         length (opt_d_pprime self') = length (opt_d_pprime self) + nat N"
proof -
  let ?P = "\<lambda>j run. \<forall>t. run = Inr t \<longrightarrow>
     length (opt_d t) = length (opt_d self) + nat j \<and>
     length (opt_d_prime t) = length (opt_d_prime self) + nat j \<and>
     length (opt_d_pprime t) = length (opt_d_pprime self) + nat j"
  have "?P (max 0 N) (for_each N (extract_entry x N) 0 (Inr self))"
  proof (rule for_each_rule [where P = ?P])
    show "?P 0 (Inr self)" by simp
    show "?P (j + 1) (extract_entry x N j t)" if j: "0 \<le> j" "j < N" and t: "?P j t" for j t
    proof (cases t)
      case (Inl e)
      then show ?thesis by (simp add: extract_entry_def)
    next
      case (Inr u)
      have "nat (j + 1) = Suc (nat j)" using j by simp
      with Inr t show ?thesis by (auto simp: extract_entry_def split: sum.splits)
    qed
  qed
  then show ?thesis using assms by simp
qed

lemma optimize_returns:
  fixes d_bounds :: "(real \<times> real) list"
  defines "n \<equiv> length d_bounds"
  assumes ne: "d_bounds \<noteq> []"
    and x: "x = solution_x (osqp ext (solver_settings flags)
                 (problem_data ext flags d_state delta_s d_bounds))"
    and len: "3 * n \<le> length x"
  shows "optimize ext flags self d_state delta_s d_bounds =
     Inr (True, self\<lparr>stored_delta_s := delta_s,
                    opt_d := opt_d self @ take n x,
                    opt_d_prime := (opt_d_prime self @ take n (drop n x))[n - 1 := 0],
                    opt_d_pprime := (opt_d_pprime self @ take n (drop (2 * n) x))[n - 1 := 0]\<rparr>)"
proof -
  let ?s = "build_constraints flags d_state delta_s d_bounds"
  have b: "shape (int n) ?s" "constraint_index ?s = 6 * int n"
    using build_constraints_refines [OF ne, of flags d_state delta_s] by (simp_all add: n_def)
  have chk: "CHECK_EQ (constraint_index ?s) (kNumConstraint d_bounds) = None"
    using b by (simp add: CHECK_EQ_def kNumConstraint_def kNumParam_def num_var_of_def n_def)
  have ns: "\<not> strayed ?s" using b by (simp add: strayed_def shape_def)
  have pos: "0 < n" using ne by (simp add: n_def)
  have ex: "for_each (int n) (extract_entry x (int n)) 0 (Inr (self\<lparr>stored_delta_s := delta_s\<rparr>)) =
     Inr (self\<lparr>stored_delta_s := delta_s,
               opt_d := opt_d self @ take n x,
               opt_d_prime := opt_d_prime self @ take n (drop n x),
               opt_d_pprime := opt_d_pprime self @ take n (drop (2 * n) x)\<rparr>)"
    using extract_all [of "int n" x "self\<lparr>stored_delta_s := delta_s\<rparr>"] len
    by (simp add: nat_mult_distrib)
  have l1: "min (length x - n) n = n" "min (length x - 2 * n) n = n" using len by auto
  have nn: "nat (int n - 1) = n - 1" by simp
  show ?thesis
    unfolding optimize_def Let_def chk x [symmetric] num_var_of_def n_def [symmetric]
    using ns pos by (simp add: ex vector_assign_def l1 nn)
qed

lemma vector_assign_length:
  "vector_assign i a v = Inr w \<Longrightarrow> length w = length v"
  by (auto simp: vector_assign_def split: if_splits)

lemma optimize_lengths:
  assumes "optimize ext flags self d_state delta_s d_bounds = Inr (b, self')"
  shows "length (opt_d self') = length (opt_d self) + length d_bounds \<and>
         length (opt_d_prime self') = length (opt_d_prime self) + length d_bounds \<and>
         length (opt_d_pprime self') = length (opt_d_pprime self) + length d_bounds"
proof -
  let ?x = "solution_x (osqp ext (solver_settings flags)
              (problem_data ext flags d_state delta_s d_bounds))"
  let ?N = "int (length d_bounds)"
  let ?run = "for_each ?N (extract_entry ?x ?N) 0 (Inr (self\<lparr>stored_delta_s := delta_s\<rparr>))"
  have rest: "(case ?run of
       Inl e \<Rightarrow> Inl e
     | Inr t \<Rightarrow>
        (case vector_assign (?N - 1) 0.0 (opt_d_prime t) of
           Inl e \<Rightarrow> Inl e
         | Inr d_prime \<Rightarrow>
            (case vector_assign (?N - 1) 0.0 (opt_d_pprime t) of
               Inl e \<Rightarrow> Inl e
             | Inr d_pprime \<Rightarrow>
                Inr (True, t\<lparr>opt_d_prime := d_prime, opt_d_pprime := d_pprime\<rparr>)))) = Inr (b, self')"
    using assms unfolding optimize_def Let_def num_var_of_def
    by (simp split: option.splits if_splits)
  then obtain t where t: "?run = Inr t"
    by (cases ?run) simp_all
  from rest t obtain d_prime where dp: "vector_assign (?N - 1) 0.0 (opt_d_prime t) = Inr d_prime"
    by (cases "vector_assign (?N - 1) 0.0 (opt_d_prime t)") simp_all
  from rest t dp obtain d_pprime where dpp: "vector_assign (?N - 1) 0.0 (opt_d_pprime t) = Inr d_pprime"
    by (cases "vector_assign (?N - 1) 0.0 (opt_d_pprime t)") simp_all
  from rest t dp dpp have self': "self' = t\<lparr>opt_d_prime := d_prime, opt_d_pprime := d_pprime\<rparr>"
    by simp
  have "length (opt_d self') = length (opt_d t)"
    "length (opt_d_prime self') = length (opt_d_prime t)"
    "length (opt_d_pprime self') = length (opt_d_pprime t)"
    using vector_assign_length [OF dp] vector_assign_length [OF dpp] by (simp_all add: self')
  with extract_lengths [OF t] show ?thesis by simp
qed

lemma problem_data_osqp_update [simp]:
  "problem_data (ext\<lparr>osqp := f\<rparr>) flags d_state delta_s d_bounds =
   problem_data ext flags d_state delta_s d_bounds"
  by (simp add: problem_data_def CalculateKernel_def)

lemma sample_call:
  "optimize (sample_ext [1, 2, 3, 4, 5, 6, 7, 8, 9] 4) sample_flags sample_instance (0, 0, 0) 1
     sample_bounds =
   Inr (True, \<lparr>stored_delta_s = 1, opt_d = [1, 2, 3], opt_d_prime = [4, 5, 0],
               opt_d_pprime = [7, 8, 0]\<rparr>)"
proof -
  have ne: "sample_bounds \<noteq> []" by (simp add: sample_bounds_def)
  have x: "[1, 2, 3, 4, 5, 6, 7, 8, 9] =
      solution_x (osqp (sample_ext [1, 2, 3, 4, 5, 6, 7, 8, 9] 4) (solver_settings sample_flags)
        (problem_data (sample_ext [1, 2, 3, 4, 5, 6, 7, 8, 9] 4) sample_flags (0, 0, 0) 1 sample_bounds))"
    by (simp add: sample_ext_def)
  have three: "length sample_bounds = 3" by (simp add: sample_bounds_def)
  show ?thesis
    using optimize_returns [OF ne x, of sample_instance]
    by (simp add: three sample_instance_def)
qed

section \<open>The empty sequence\<close>

lemma Let_constraints:
  "(let s = \<lparr>affine_constraint = a, lower_bounds = l, upper_bounds = u, constraint_index = k\<rparr>
    in f s) =
   f \<lparr>affine_constraint = a, lower_bounds = l, upper_bounds = u, constraint_index = k\<rparr>"
  by simp

lemma for_pairs_empty: "for_pairs 0 body 0 s = s"
  by (simp add: for_pairs.simps [of 0 _ 0])

lemma for_each_empty: "for_each 0 body 0 s = s"
  by (simp add: for_each.simps [of 0 _ 0])

lemma pin_rows_empty: "pin_rows d_state 0 \<lparr>affine_constraint = MatrixXd_Zero 0 0,
               lower_bounds = new_array 0,
               upper_bounds = new_array 0,
               constraint_index = 0\<rparr> = 
     \<lparr>affine_constraint = \<lparr>rows = 0, cols = 0, coeff = (\<lambda>_. 0), stray = [(0, 0), (1, 0), (2, 0)]\<rparr>,
      lower_bounds = \<lparr>extent = 0, cell = Map.empty, stray_index = [0, 1, 2]\<rparr>,
      upper_bounds = \<lparr>extent = 0, cell = Map.empty, stray_index = [0, 1, 2]\<rparr>,
      constraint_index = 3\<rparr>"
  by (simp add: pin_rows_def set_coeff_def
      set_bounds_def assign_def store_def MatrixXd_Zero_def new_array_def Let_constraints)

lemma build_constraints_empty:
  "build_constraints flags d_state delta_s [] =
     \<lparr>affine_constraint = \<lparr>rows = 0, cols = 0, coeff = (\<lambda>_. 0), stray = [(0, 0), (1, 0), (2, 0)]\<rparr>,
      lower_bounds = \<lparr>extent = 0, cell = Map.empty, stray_index = [0, 1, 2]\<rparr>,
      upper_bounds = \<lparr>extent = 0, cell = Map.empty, stray_index = [0, 1, 2]\<rparr>,
      constraint_index = 3\<rparr>"
  by (simp add: build_constraints_def num_var_of_def kNumParam_def kNumConstraint_def for_pairs_empty
      for_each_empty pin_rows_empty Let_constraints)

lemma optimize_empty:
  "optimize ext flags self d_state delta_s [] = Inl Out_of_range"
  by (simp add: optimize_def Let_def build_constraints_empty strayed_def)

lemma optimize_status_update:
  "optimize (ext\<lparr>osqp := \<lambda>settings data.
       (osqp ext settings data)\<lparr>info_status_val := f settings data\<rparr>\<rparr>)
     flags self d_state delta_s d_bounds =
   optimize ext flags self d_state delta_s d_bounds"
  by (simp add: optimize_def Let_def cong: option.case_cong if_cong)

section \<open>The claims\<close>

text \<open>
  C1. For a station-bound sequence of length \<open>N \<ge> 1\<close> and any \<open>delta_s\<close>, the
  construction builds \<open>kNumConstraint = 3N + 3(N - 1) + 3\<close> rows over \<open>kNumParam = 3N\<close>
  columns: the matrix has these extents, the row counter is \<open>kNumConstraint\<close> when the
  construction is finished, \<^verbatim>\<open>CHECK_EQ\<close> passes, and no write has strayed.
\<close>

theorem constraint_row_count:
  assumes "d_bounds \<noteq> []"
  shows "kNumParam d_bounds = 3 * int (length d_bounds) \<and>
     kNumConstraint d_bounds =
       3 * int (length d_bounds) + 3 * (int (length d_bounds) - 1) + 3 \<and>
     rows (affine_constraint (build_constraints flags d_state delta_s d_bounds)) =
       kNumConstraint d_bounds \<and>
     cols (affine_constraint (build_constraints flags d_state delta_s d_bounds)) =
       kNumParam d_bounds \<and>
     constraint_index (build_constraints flags d_state delta_s d_bounds) =
       kNumConstraint d_bounds \<and>
     CHECK_EQ (constraint_index (build_constraints flags d_state delta_s d_bounds))
       (kNumConstraint d_bounds) = None \<and>
     \<not> strayed (build_constraints flags d_state delta_s d_bounds)"
  using build_constraints_refines [OF assms, of flags d_state delta_s]
  by (simp add: kNumParam_def kNumConstraint_def num_var_of_def shape_def CHECK_EQ_def strayed_def)

text \<open>
  The witness: three stations, eighteen rows, nine columns.
\<close>

theorem constraint_row_count_witness:
  "sample_bounds \<noteq> [] \<and>
   kNumConstraint sample_bounds = 18 \<and>
   rows (affine_constraint (build_constraints sample_flags (0, 0, 0) 1 sample_bounds)) = 18 \<and>
   cols (affine_constraint (build_constraints sample_flags (0, 0, 0) 1 sample_bounds)) = 9 \<and>
   constraint_index (build_constraints sample_flags (0, 0, 0) 1 sample_bounds) = 18"
proof -
  have ne: "sample_bounds \<noteq> []" by (simp add: sample_bounds_def)
  have len: "int (length sample_bounds) = 3" by (simp add: sample_bounds_def)
  show ?thesis
    using ne constraint_row_count [OF ne, of sample_flags "(0, 0, 0)" 1] by (simp add: len)
qed

text \<open>
  C2. For \<open>N \<ge> 2\<close> and \<open>0 \<le> i < N - 1\<close>, the position-continuity row of station
  \<open>i\<close> (row \<open>2(N - 1) + i\<close>, the third loop starts after the \<open>2(N - 1)\<close> rows of the
  first two) has \<open>+1\<close> at column \<open>i + 1\<close>, \<open>-1\<close> at column \<open>i\<close>, \<open>-delta_s\<close> at column
  \<open>N + i\<close>, \<open>-delta_s\<^sup>2/3\<close> at column \<open>2N + i\<close>, \<open>-delta_s\<^sup>2/6\<close> at column \<open>2N + i + 1\<close>
  and zero elsewhere; its lower and upper bound are both 0.
\<close>

theorem position_continuity_row:
  assumes "2 \<le> int (length d_bounds)" and "0 \<le> i" and "i < int (length d_bounds) - 1"
  shows "(\<forall>c. coeff (affine_constraint (build_constraints flags d_state delta_s d_bounds))
              (2 * (int (length d_bounds) - 1) + i, c) =
            (if c = i + 1 then 1
             else if c = i then - 1
             else if c = int (length d_bounds) + i then - delta_s
             else if c = 2 * int (length d_bounds) + i then - (delta_s\<^sup>2 / 3)
             else if c = 2 * int (length d_bounds) + i + 1 then - (delta_s\<^sup>2 / 6)
             else 0)) \<and>
     cell (lower_bounds (build_constraints flags d_state delta_s d_bounds))
       (2 * (int (length d_bounds) - 1) + i) = Some 0 \<and>
     cell (upper_bounds (build_constraints flags d_state delta_s d_bounds))
       (2 * (int (length d_bounds) - 1) + i) = Some 0"
proof -
  let ?N = "int (length d_bounds)"
  let ?r = "2 * (?N - 1) + i"
  have ne: "d_bounds \<noteq> []" using assms by auto
  have r: "0 \<le> ?r" "?r < 6 * ?N" using assms by simp_all
  have j: "i + 1 < ?N" using assms by simp
  note row = build_constraints_row [OF ne r, of flags d_state delta_s]
  have "coeff (affine_constraint (build_constraints flags d_state delta_s d_bounds)) (?r, c) =
      (if c = i + 1 then 1 else if c = i then - 1 else if c = ?N + i then - delta_s
       else if c = 2 * ?N + i then - (delta_s\<^sup>2 / 3)
       else if c = 2 * ?N + i + 1 then - (delta_s\<^sup>2 / 6) else 0)" for c
    unfolding row(1) spec_coeff_position [OF assms(2) j] using assms ne
    by (auto simp: power2_eq_square)
  moreover have "spec_lower (FLAGS_lateral_third_order_derivative_max flags) d_state delta_s d_bounds ?r = 0"
    "spec_upper (FLAGS_lateral_third_order_derivative_max flags) d_state delta_s d_bounds ?r = 0"
    using assms by (simp_all add: spec_lower_def spec_upper_def)
  ultimately show ?thesis unfolding row(2,3) by simp
qed

text \<open>
  The witness: three stations, \<open>delta_s = 2\<close>, the row of station 1 (row 5).
\<close>

theorem position_continuity_row_witness:
  "2 \<le> int (length sample_bounds) \<and> (0::int) \<le> 1 \<and> 1 < int (length sample_bounds) - 1 \<and>
   coeff (affine_constraint (build_constraints sample_flags (0, 0, 0) 2 sample_bounds)) (5, 2) = 1 \<and>
   coeff (affine_constraint (build_constraints sample_flags (0, 0, 0) 2 sample_bounds)) (5, 1) = - 1 \<and>
   coeff (affine_constraint (build_constraints sample_flags (0, 0, 0) 2 sample_bounds)) (5, 4) = - 2 \<and>
   coeff (affine_constraint (build_constraints sample_flags (0, 0, 0) 2 sample_bounds)) (5, 7) = - (4 / 3) \<and>
   coeff (affine_constraint (build_constraints sample_flags (0, 0, 0) 2 sample_bounds)) (5, 8) = - (4 / 6) \<and>
   coeff (affine_constraint (build_constraints sample_flags (0, 0, 0) 2 sample_bounds)) (5, 0) = 0 \<and>
   cell (lower_bounds (build_constraints sample_flags (0, 0, 0) 2 sample_bounds)) 5 = Some 0 \<and>
   cell (upper_bounds (build_constraints sample_flags (0, 0, 0) 2 sample_bounds)) 5 = Some 0"
proof -
  have len: "int (length sample_bounds) = 3" by (simp add: sample_bounds_def)
  have h: "2 \<le> int (length sample_bounds)" "(0::int) \<le> 1" "1 < int (length sample_bounds) - 1"
    by (simp_all add: len)
  show ?thesis
    using h position_continuity_row [OF h, of sample_flags "(0, 0, 0)" 2] by (simp add: len)
qed

text \<open>
  C3. The matrix that \<^verbatim>\<open>CalculateKernel\<close> builds is \<open>3N \<times> 3N\<close>; inside it every
  off-diagonal entry is 0 and the diagonal entry at \<open>i\<close> is
  \<open>2 (w_offset + w_obstacle_distance)\<close> for \<open>i < N\<close>, \<open>2 w_derivative\<close> for
  \<open>N \<le> i < 2N\<close> and \<open>2 w_second_derivative\<close> for \<open>2N \<le> i < 3N\<close>.
\<close>

theorem kernel_diagonal:
  assumes "0 \<le> i" "i < 3 * int (length d_bounds)" "0 \<le> j" "j < 3 * int (length d_bounds)"
  shows "rows (kernel_matrix flags d_bounds) = 3 * int (length d_bounds) \<and>
     cols (kernel_matrix flags d_bounds) = 3 * int (length d_bounds) \<and>
     stray (kernel_matrix flags d_bounds) = [] \<and>
     coeff (kernel_matrix flags d_bounds) (i, j) =
       (if i \<noteq> j then 0
        else if i < int (length d_bounds) then
          2 * (FLAGS_weight_lateral_offset flags + FLAGS_weight_lateral_obstacle_distance flags)
        else if i < 2 * int (length d_bounds) then 2 * FLAGS_weight_lateral_derivative flags
        else 2 * FLAGS_weight_lateral_second_order_derivative flags)"
  using kernel_matrix_inv [of flags d_bounds] assms by simp

text \<open>
  The witness: three stations and the weights 1, 3, 5, 7.
\<close>

theorem kernel_diagonal_witness:
  "(0::int) \<le> 4 \<and> 4 < 3 * int (length sample_bounds) \<and>
   rows (kernel_matrix sample_flags sample_bounds) = 9 \<and>
   cols (kernel_matrix sample_flags sample_bounds) = 9 \<and>
   coeff (kernel_matrix sample_flags sample_bounds) (4, 4) = 10 \<and>
   coeff (kernel_matrix sample_flags sample_bounds) (1, 1) = 8 \<and>
   coeff (kernel_matrix sample_flags sample_bounds) (8, 8) = 14 \<and>
   coeff (kernel_matrix sample_flags sample_bounds) (4, 1) = 0"
proof -
  have len: "int (length sample_bounds) = 3" by (simp add: sample_bounds_def)
  show ?thesis
    using kernel_diagonal [of 4 sample_bounds 4 sample_flags]
      kernel_diagonal [of 1 sample_bounds 1 sample_flags]
      kernel_diagonal [of 8 sample_bounds 8 sample_flags]
      kernel_diagonal [of 4 sample_bounds 1 sample_flags]
    by (simp add: len sample_flags_def)
qed

text \<open>
  C4. The linear term \<open>q\<close> handed to the solver has \<open>3N\<close> cells, all of them written:
  \<open>q\<^sub>i = -2 w_obstacle_distance (lower\<^sub>i + upper\<^sub>i)\<close> for \<open>i < N\<close> and \<open>q\<^sub>i = 0\<close> for
  \<open>N \<le> i < 3N\<close>.
\<close>

theorem linear_term_entries:
  assumes "0 \<le> i" "i < 3 * int (length d_bounds)"
  shows "extent (data_q (problem_data ext flags d_state delta_s d_bounds)) =
       3 * int (length d_bounds) \<and>
     stray_index (data_q (problem_data ext flags d_state delta_s d_bounds)) = [] \<and>
     cell (data_q (problem_data ext flags d_state delta_s d_bounds)) i =
       Some (if i < int (length d_bounds)
             then - 2 * FLAGS_weight_lateral_obstacle_distance flags *
                    (fst (d_bounds ! nat i) + snd (d_bounds ! nat i))
             else 0)"
  using linear_term_inv [of flags d_bounds] assms by (simp add: data_q_problem_data)

text \<open>
  The witness: the bounds \<open>(-1, 2)\<close> and \<open>(3, 4)\<close> with obstacle weight 3.
\<close>

theorem linear_term_entries_witness:
  "(0::int) \<le> 1 \<and> 1 < 3 * int (length [(- 1, 2), (3, 4::real)]) \<and>
   extent (data_q (problem_data (sample_ext [] 0) sample_flags (0, 0, 0) 1 [(- 1, 2), (3, 4)])) = 6 \<and>
   cell (data_q (problem_data (sample_ext [] 0) sample_flags (0, 0, 0) 1 [(- 1, 2), (3, 4)])) 1 =
     Some (- 42) \<and>
   cell (data_q (problem_data (sample_ext [] 0) sample_flags (0, 0, 0) 1 [(- 1, 2), (3, 4)])) 2 =
     Some 0"
  using linear_term_entries [of 1 "[(- 1, 2), (3, 4)]" "sample_ext [] 0" sample_flags "(0, 0, 0)" 1]
    linear_term_entries [of 2 "[(- 1, 2), (3, 4)]" "sample_ext [] 0" sample_flags "(0, 0, 0)" 1]
  by (simp add: sample_flags_def)

text \<open>
  C5. For \<open>N \<ge> 2\<close> and \<open>0 \<le> i < N - 1\<close>, the jerk row of station \<open>i\<close> (row \<open>i\<close>) has
  \<open>-1\<close> at column \<open>2N + i\<close>, \<open>+1\<close> at column \<open>2N + i + 1\<close> and zero elsewhere; its
  bounds are \<open>-J_max delta_s\<close> and \<open>J_max delta_s\<close>, with \<open>J_max\<close> the flag
  \<^verbatim>\<open>FLAGS_lateral_third_order_derivative_max\<close>.
\<close>

theorem jerk_bound_row:
  assumes "2 \<le> int (length d_bounds)" and "0 \<le> i" and "i < int (length d_bounds) - 1"
  shows "(\<forall>c. coeff (affine_constraint (build_constraints flags d_state delta_s d_bounds)) (i, c) =
            (if c = 2 * int (length d_bounds) + i then - 1
             else if c = 2 * int (length d_bounds) + i + 1 then 1
             else 0)) \<and>
     cell (lower_bounds (build_constraints flags d_state delta_s d_bounds)) i =
       Some (- (FLAGS_lateral_third_order_derivative_max flags * delta_s)) \<and>
     cell (upper_bounds (build_constraints flags d_state delta_s d_bounds)) i =
       Some (FLAGS_lateral_third_order_derivative_max flags * delta_s)"
proof -
  let ?N = "int (length d_bounds)"
  have ne: "d_bounds \<noteq> []" using assms by auto
  have r: "0 \<le> i" "i < 6 * ?N" using assms by simp_all
  have j: "i + 1 < ?N" using assms by simp
  note row = build_constraints_row [OF ne r, of flags d_state delta_s]
  have "coeff (affine_constraint (build_constraints flags d_state delta_s d_bounds)) (i, c) =
      (if c = 2 * ?N + i then - 1 else if c = 2 * ?N + i + 1 then 1 else 0)" for c
    unfolding row(1) spec_coeff_jerk [OF assms(2) j] by auto
  moreover have "spec_lower (FLAGS_lateral_third_order_derivative_max flags) d_state delta_s d_bounds i =
      - (FLAGS_lateral_third_order_derivative_max flags * delta_s)"
    "spec_upper (FLAGS_lateral_third_order_derivative_max flags) d_state delta_s d_bounds i =
      FLAGS_lateral_third_order_derivative_max flags * delta_s"
    using assms by (simp_all add: spec_lower_def spec_upper_def)
  ultimately show ?thesis unfolding row(2,3) by simp
qed

text \<open>
  The witness: three stations, \<open>delta_s = 2\<close>, \<open>J_max = 4\<close>, the row of station 1.
\<close>

theorem jerk_bound_row_witness:
  "2 \<le> int (length sample_bounds) \<and> (0::int) \<le> 1 \<and> 1 < int (length sample_bounds) - 1 \<and>
   coeff (affine_constraint (build_constraints sample_flags (0, 0, 0) 2 sample_bounds)) (1, 7) = - 1 \<and>
   coeff (affine_constraint (build_constraints sample_flags (0, 0, 0) 2 sample_bounds)) (1, 8) = 1 \<and>
   coeff (affine_constraint (build_constraints sample_flags (0, 0, 0) 2 sample_bounds)) (1, 1) = 0 \<and>
   cell (lower_bounds (build_constraints sample_flags (0, 0, 0) 2 sample_bounds)) 1 = Some (- 8) \<and>
   cell (upper_bounds (build_constraints sample_flags (0, 0, 0) 2 sample_bounds)) 1 = Some 8"
proof -
  have len: "int (length sample_bounds) = 3" by (simp add: sample_bounds_def)
  have h: "2 \<le> int (length sample_bounds)" "(0::int) \<le> 1" "1 < int (length sample_bounds) - 1"
    by (simp_all add: len)
  show ?thesis
    using h jerk_bound_row [OF h, of sample_flags "(0, 0, 0)" 2]
    by (simp add: len sample_flags_def)
qed

text \<open>
  C6. The last \<open>3N\<close> of the \<open>6N\<close> rows are the box rows: the row of variable \<open>i\<close>
  (row \<open>3N + i\<close>, \<open>0 \<le> i < 3N\<close>) has the single coefficient 1 at column \<open>i\<close>; its bounds
  are those of \<^verbatim>\<open>d_bounds[i]\<close> for \<open>i < N\<close> and \<open>-2.0\<close>, \<open>2.0\<close> for \<open>N \<le> i < 3N\<close>.
\<close>

theorem box_bound_row:
  assumes "0 \<le> i" and "i < 3 * int (length d_bounds)"
  shows "rows (affine_constraint (build_constraints flags d_state delta_s d_bounds)) =
       3 * int (length d_bounds) + 3 * int (length d_bounds) \<and>
     (\<forall>c. coeff (affine_constraint (build_constraints flags d_state delta_s d_bounds))
              (3 * int (length d_bounds) + i, c) = (if c = i then 1 else 0)) \<and>
     cell (lower_bounds (build_constraints flags d_state delta_s d_bounds))
       (3 * int (length d_bounds) + i) =
       Some (if i < int (length d_bounds) then fst (d_bounds ! nat i) else - 2.0) \<and>
     cell (upper_bounds (build_constraints flags d_state delta_s d_bounds))
       (3 * int (length d_bounds) + i) =
       Some (if i < int (length d_bounds) then snd (d_bounds ! nat i) else 2.0)"
proof -
  let ?N = "int (length d_bounds)"
  let ?r = "3 * ?N + i"
  have ne: "d_bounds \<noteq> []" using assms by auto
  have r: "0 \<le> ?r" "?r < 6 * ?N" using assms by simp_all
  note row = build_constraints_row [OF ne r, of flags d_state delta_s]
  have "rows (affine_constraint (build_constraints flags d_state delta_s d_bounds)) = 3 * ?N + 3 * ?N"
    using build_constraints_refines [OF ne, of flags d_state delta_s] by (simp add: shape_def)
  moreover have "spec_lower (FLAGS_lateral_third_order_derivative_max flags) d_state delta_s d_bounds ?r =
      (if i < ?N then fst (d_bounds ! nat i) else - 2.0)"
    "spec_upper (FLAGS_lateral_third_order_derivative_max flags) d_state delta_s d_bounds ?r =
      (if i < ?N then snd (d_bounds ! nat i) else 2.0)"
    using assms by (simp_all add: spec_lower_def spec_upper_def)
  ultimately show ?thesis unfolding row spec_coeff_box [OF assms] by simp
qed

text \<open>
  The witness: two stations, the rows of the variables 1 and 5.
\<close>

theorem box_bound_row_witness:
  "(0::int) \<le> 1 \<and> 1 < 3 * int (length [(- 1, 2), (3, 4::real)]) \<and>
   coeff (affine_constraint (build_constraints sample_flags (0, 0, 0) 1 [(- 1, 2), (3, 4)])) (7, 1) = 1 \<and>
   coeff (affine_constraint (build_constraints sample_flags (0, 0, 0) 1 [(- 1, 2), (3, 4)])) (7, 2) = 0 \<and>
   cell (lower_bounds (build_constraints sample_flags (0, 0, 0) 1 [(- 1, 2), (3, 4)])) 7 = Some 3 \<and>
   cell (upper_bounds (build_constraints sample_flags (0, 0, 0) 1 [(- 1, 2), (3, 4)])) 7 = Some 4 \<and>
   cell (lower_bounds (build_constraints sample_flags (0, 0, 0) 1 [(- 1, 2), (3, 4)])) 11 = Some (- 2) \<and>
   cell (upper_bounds (build_constraints sample_flags (0, 0, 0) 1 [(- 1, 2), (3, 4)])) 11 = Some 2"
  using box_bound_row [of 1 "[(- 1, 2), (3, 4)]" sample_flags "(0, 0, 0)" 1]
    box_bound_row [of 5 "[(- 1, 2), (3, 4)]" sample_flags "(0, 0, 0)" 1]
  by simp

text \<open>
  C7, as amended. For \<open>N \<ge> 1\<close> and a primal vector of \<open>3N\<close> entries, \<^verbatim>\<open>optimize\<close>
  returns, and afterwards the entries at index \<open>N - 1\<close> of the first-derivative and of the
  second-derivative sequence are 0.0. These are the last entries when the sequence was
  empty at the call, as it is on a fresh instance.
\<close>

theorem terminal_entries_zero:
  assumes "d_bounds \<noteq> []"
    and "length (solution_x (osqp ext (solver_settings flags)
            (problem_data ext flags d_state delta_s d_bounds))) = 3 * length d_bounds"
  shows "\<exists>self'. optimize ext flags self d_state delta_s d_bounds = Inr (True, self') \<and>
     opt_d_prime self' ! (length d_bounds - 1) = 0 \<and>
     opt_d_pprime self' ! (length d_bounds - 1) = 0 \<and>
     (opt_d_prime self = [] \<longrightarrow> last (opt_d_prime self') = 0) \<and>
     (opt_d_pprime self = [] \<longrightarrow> last (opt_d_pprime self') = 0)"
proof -
  let ?n = "length d_bounds"
  let ?x = "solution_x (osqp ext (solver_settings flags)
              (problem_data ext flags d_state delta_s d_bounds))"
  let ?p = "(opt_d_prime self @ take ?n (drop ?n ?x))[?n - 1 := 0]"
  let ?pp = "(opt_d_pprime self @ take ?n (drop (2 * ?n) ?x))[?n - 1 := 0]"
  have pos: "0 < ?n" using assms(1) by simp
  have lp: "length ?p = length (opt_d_prime self) + ?n"
    and lpp: "length ?pp = length (opt_d_pprime self) + ?n"
    using assms(2) by simp_all
  have "?n - 1 < length ?p" "?n - 1 < length ?pp"
    using pos lp lpp by linarith+
  then have a: "?p ! (?n - 1) = 0" "?pp ! (?n - 1) = 0"
    by (simp_all only: nth_list_update_eq length_list_update)
  have b: "last ?p = 0" if "opt_d_prime self = []"
  proof -
    have "?p \<noteq> []" using lp pos by auto
    then have "last ?p = ?p ! (length ?p - 1)" by (rule last_conv_nth)
    with a(1) lp that show ?thesis by simp
  qed
  have c: "last ?pp = 0" if "opt_d_pprime self = []"
  proof -
    have "?pp \<noteq> []" using lpp pos by auto
    then have "last ?pp = ?pp ! (length ?pp - 1)" by (rule last_conv_nth)
    with a(2) lpp that show ?thesis by simp
  qed
  have "optimize ext flags self d_state delta_s d_bounds =
      Inr (True, self\<lparr>stored_delta_s := delta_s, opt_d := opt_d self @ take ?n ?x,
                     opt_d_prime := ?p, opt_d_pprime := ?pp\<rparr>)"
    using optimize_returns [OF assms(1) refl, of ext flags d_state delta_s self] assms(2) by simp
  then show ?thesis using a b c by simp
qed

text \<open>
  The witness: three stations on an instance with empty sequences.
\<close>

theorem terminal_entries_zero_witness:
  "sample_bounds \<noteq> [] \<and>
   length (solution_x (osqp (sample_ext [1, 2, 3, 4, 5, 6, 7, 8, 9] 4) (solver_settings sample_flags)
      (problem_data (sample_ext [1, 2, 3, 4, 5, 6, 7, 8, 9] 4) sample_flags (0, 0, 0) 1 sample_bounds))) =
     3 * length sample_bounds \<and>
   opt_d_prime sample_instance = [] \<and> opt_d_pprime sample_instance = [] \<and>
   (\<exists>self'. optimize (sample_ext [1, 2, 3, 4, 5, 6, 7, 8, 9] 4) sample_flags sample_instance
        (0, 0, 0) 1 sample_bounds = Inr (True, self') \<and>
      last (opt_d_prime self') = 0 \<and> last (opt_d_pprime self') = 0)"
proof -
  have ne: "sample_bounds \<noteq> []" by (simp add: sample_bounds_def)
  have len: "length (solution_x (osqp (sample_ext [1, 2, 3, 4, 5, 6, 7, 8, 9] 4)
      (solver_settings sample_flags)
      (problem_data (sample_ext [1, 2, 3, 4, 5, 6, 7, 8, 9] 4) sample_flags (0, 0, 0) 1 sample_bounds))) =
     3 * length sample_bounds"
    by (simp add: sample_ext_def sample_bounds_def)
  have e: "opt_d_prime sample_instance = []" "opt_d_pprime sample_instance = []"
    by (simp_all add: sample_instance_def)
  show ?thesis
    using ne len e terminal_entries_zero [OF ne len, of sample_instance] by blast
qed

text \<open>
  C7 as stated fails on an instance that is used twice: the sequences are appended to,
  the zeros are written at index \<open>N - 1\<close>, and after the second call with one station the
  last entries are the solver's 2 and 3.
\<close>

theorem second_call_keeps_solver_tail:
  "optimize (sample_ext [1, 2, 3] 1) sample_flags sample_instance (0, 0, 0) 1 [(- 1, 1)] =
     Inr (True, \<lparr>stored_delta_s = 1, opt_d = [1], opt_d_prime = [0], opt_d_pprime = [0]\<rparr>) \<and>
   optimize (sample_ext [1, 2, 3] 1) sample_flags
     \<lparr>stored_delta_s = 1, opt_d = [1], opt_d_prime = [0], opt_d_pprime = [0]\<rparr> (0, 0, 0) 1 [(- 1, 1)] =
     Inr (True, \<lparr>stored_delta_s = 1, opt_d = [1, 1], opt_d_prime = [0, 2], opt_d_pprime = [0, 3]\<rparr>) \<and>
   last (opt_d_prime \<lparr>stored_delta_s = 1, opt_d = [1, 1], opt_d_prime = [0, 2],
                      opt_d_pprime = [0, 3::real]\<rparr>) = (2::real) \<and>
   last (opt_d_pprime \<lparr>stored_delta_s = 1, opt_d = [1, 1], opt_d_prime = [0, 2::real],
                      opt_d_pprime = [0, 3]\<rparr>) = (3::real)"
proof -
  have ne: "[(- 1, 1::real)] \<noteq> ([] :: (real \<times> real) list)" by simp
  have x: "[1, 2, 3] =
      solution_x (osqp (sample_ext [1, 2, 3] 1) (solver_settings sample_flags)
        (problem_data (sample_ext [1, 2, 3] 1) sample_flags (0, 0, 0) 1 [(- 1, 1)]))"
    by (simp add: sample_ext_def)
  show ?thesis
    using optimize_returns [OF ne x, of sample_instance]
      optimize_returns [OF ne x,
        of "\<lparr>stored_delta_s = 1, opt_d = [1], opt_d_prime = [0], opt_d_pprime = [0]\<rparr>"]
    by (simp add: sample_instance_def)
qed

text \<open>
  C8. For every input of the data model (\<open>N \<ge> 1\<close>) and every outcome of the solver (any
  status, with the primal vector of \<open>n = 3N\<close> entries that the solver hands back),
  \<^verbatim>\<open>optimize\<close> returns \<^verbatim>\<open>true\<close>. The status is never read: for every input whatever, and
  every way of replacing the status the solver reports, the outcome of \<^verbatim>\<open>optimize\<close> is
  the same.
\<close>

theorem optimize_ignores_status:
  "(d_bounds \<noteq> [] \<and>
    length (solution_x (osqp ext (solver_settings flags)
       (problem_data ext flags d_state delta_s d_bounds))) = 3 * length d_bounds \<longrightarrow>
    (\<exists>self'. optimize ext flags self d_state delta_s d_bounds = Inr (True, self') \<and>
       (\<forall>f. optimize (ext\<lparr>osqp := \<lambda>settings data.
                 (osqp ext settings data)\<lparr>info_status_val := f settings data\<rparr>\<rparr>)
              flags self d_state delta_s d_bounds = Inr (True, self')))) \<and>
   (\<forall>f. optimize (ext\<lparr>osqp := \<lambda>settings data.
             (osqp ext settings data)\<lparr>info_status_val := f settings data\<rparr>\<rparr>)
          flags self d_state delta_s d_bounds =
        optimize ext flags self d_state delta_s d_bounds)"
proof (intro conjI impI allI)
  assume a: "d_bounds \<noteq> [] \<and>
    length (solution_x (osqp ext (solver_settings flags)
       (problem_data ext flags d_state delta_s d_bounds))) = 3 * length d_bounds"
  then obtain self' where "optimize ext flags self d_state delta_s d_bounds = Inr (True, self')"
    using optimize_returns [OF _ refl, of d_bounds ext flags d_state delta_s self] by simp
  then show "\<exists>self'. optimize ext flags self d_state delta_s d_bounds = Inr (True, self') \<and>
       (\<forall>f. optimize (ext\<lparr>osqp := \<lambda>settings data.
                 (osqp ext settings data)\<lparr>info_status_val := f settings data\<rparr>\<rparr>)
              flags self d_state delta_s d_bounds = Inr (True, self'))"
    by (simp add: optimize_status_update)
next
  fix f
  show "optimize (ext\<lparr>osqp := \<lambda>settings data.
             (osqp ext settings data)\<lparr>info_status_val := f settings data\<rparr>\<rparr>)
          flags self d_state delta_s d_bounds =
        optimize ext flags self d_state delta_s d_bounds"
    by (rule optimize_status_update)
qed

text \<open>
  The witness: three stations; the solver's status 4 replaced by -3.
\<close>

theorem optimize_ignores_status_witness:
  "sample_bounds \<noteq> [] \<and>
   length (solution_x (osqp (sample_ext [1, 2, 3, 4, 5, 6, 7, 8, 9] 4) (solver_settings sample_flags)
      (problem_data (sample_ext [1, 2, 3, 4, 5, 6, 7, 8, 9] 4) sample_flags (0, 0, 0) 1 sample_bounds))) =
     3 * length sample_bounds \<and>
   (\<exists>self'. optimize (sample_ext [1, 2, 3, 4, 5, 6, 7, 8, 9] 4) sample_flags sample_instance
      (0, 0, 0) 1 sample_bounds = Inr (True, self') \<and>
      optimize ((sample_ext [1, 2, 3, 4, 5, 6, 7, 8, 9] 4)
          \<lparr>osqp := \<lambda>settings data.
             (osqp (sample_ext [1, 2, 3, 4, 5, 6, 7, 8, 9] 4) settings data)\<lparr>info_status_val := - 3\<rparr>\<rparr>)
        sample_flags sample_instance (0, 0, 0) 1 sample_bounds = Inr (True, self'))"
proof -
  have ne: "sample_bounds \<noteq> []" by (simp add: sample_bounds_def)
  have len: "length (solution_x (osqp (sample_ext [1, 2, 3, 4, 5, 6, 7, 8, 9] 4)
      (solver_settings sample_flags)
      (problem_data (sample_ext [1, 2, 3, 4, 5, 6, 7, 8, 9] 4) sample_flags (0, 0, 0) 1 sample_bounds))) =
     3 * length sample_bounds"
    by (simp add: sample_ext_def sample_bounds_def)
  from ne len
    optimize_ignores_status [of sample_bounds "sample_ext [1, 2, 3, 4, 5, 6, 7, 8, 9] 4"
      sample_flags "(0, 0, 0)" 1 sample_instance]
  obtain self' where r: "optimize (sample_ext [1, 2, 3, 4, 5, 6, 7, 8, 9] 4) sample_flags
        sample_instance (0, 0, 0) 1 sample_bounds = Inr (True, self')"
    and s: "\<forall>f. optimize ((sample_ext [1, 2, 3, 4, 5, 6, 7, 8, 9] 4)
          \<lparr>osqp := \<lambda>settings data.
             (osqp (sample_ext [1, 2, 3, 4, 5, 6, 7, 8, 9] 4) settings data)
               \<lparr>info_status_val := f settings data\<rparr>\<rparr>)
        sample_flags sample_instance (0, 0, 0) 1 sample_bounds = Inr (True, self')"
    by blast
  from s [rule_format, of "\<lambda>settings data. - 3"] r ne len show ?thesis by blast
qed

text \<open>
  C9. Whenever \<^verbatim>\<open>optimize\<close> returns, each of the three output sequences is \<open>N\<close> entries
  longer than before the call, so each has length \<open>N\<close> when all three were empty at the
  call; and it does return when \<open>N \<ge> 1\<close> and the primal vector has \<open>3N\<close> entries.
\<close>

theorem output_lengths:
  "(\<forall>b self'. optimize ext flags self d_state delta_s d_bounds = Inr (b, self') \<longrightarrow>
      length (opt_d self') = length (opt_d self) + length d_bounds \<and>
      length (opt_d_prime self') = length (opt_d_prime self) + length d_bounds \<and>
      length (opt_d_pprime self') = length (opt_d_pprime self) + length d_bounds \<and>
      (opt_d self = [] \<and> opt_d_prime self = [] \<and> opt_d_pprime self = [] \<longrightarrow>
         length (opt_d self') = length d_bounds \<and>
         length (opt_d_prime self') = length d_bounds \<and>
         length (opt_d_pprime self') = length d_bounds)) \<and>
   (d_bounds \<noteq> [] \<and>
    length (solution_x (osqp ext (solver_settings flags)
       (problem_data ext flags d_state delta_s d_bounds))) = 3 * length d_bounds \<longrightarrow>
    (\<exists>self'. optimize ext flags self d_state delta_s d_bounds = Inr (True, self')))"
proof (intro conjI allI impI)
  fix b self'
  assume r: "optimize ext flags self d_state delta_s d_bounds = Inr (b, self')"
  note l = optimize_lengths [OF r]
  show "length (opt_d self') = length (opt_d self) + length d_bounds" using l by simp
  show "length (opt_d_prime self') = length (opt_d_prime self) + length d_bounds" using l by simp
  show "length (opt_d_pprime self') = length (opt_d_pprime self) + length d_bounds" using l by simp
  assume "opt_d self = [] \<and> opt_d_prime self = [] \<and> opt_d_pprime self = []"
  then show "length (opt_d self') = length d_bounds" "length (opt_d_prime self') = length d_bounds"
    "length (opt_d_pprime self') = length d_bounds"
    using l by simp_all
next
  assume a: "d_bounds \<noteq> [] \<and>
    length (solution_x (osqp ext (solver_settings flags)
       (problem_data ext flags d_state delta_s d_bounds))) = 3 * length d_bounds"
  then show "\<exists>self'. optimize ext flags self d_state delta_s d_bounds = Inr (True, self')"
    using optimize_returns [OF _ refl, of d_bounds ext flags d_state delta_s self] by simp
qed

text \<open>
  The witness: three stations on an instance with empty sequences.
\<close>

theorem output_lengths_witness:
  "optimize (sample_ext [1, 2, 3, 4, 5, 6, 7, 8, 9] 4) sample_flags sample_instance (0, 0, 0) 1
     sample_bounds =
   Inr (True, \<lparr>stored_delta_s = 1, opt_d = [1, 2, 3], opt_d_prime = [4, 5, 0],
               opt_d_pprime = [7, 8, 0]\<rparr>) \<and>
   opt_d sample_instance = [] \<and> opt_d_prime sample_instance = [] \<and>
   opt_d_pprime sample_instance = [] \<and>
   length (opt_d \<lparr>stored_delta_s = 1, opt_d = [1, 2, 3], opt_d_prime = [4, 5, 0],
               opt_d_pprime = [7, 8, 0::real]\<rparr>) = length sample_bounds \<and>
   length (opt_d_prime \<lparr>stored_delta_s = 1, opt_d = [1, 2, 3], opt_d_prime = [4, 5, 0],
               opt_d_pprime = [7, 8, 0::real]\<rparr>) = length sample_bounds \<and>
   length (opt_d_pprime \<lparr>stored_delta_s = 1, opt_d = [1, 2, 3], opt_d_prime = [4, 5, 0],
               opt_d_pprime = [7, 8, 0::real]\<rparr>) = length sample_bounds"
proof -
  have e: "opt_d sample_instance = [] \<and> opt_d_prime sample_instance = [] \<and>
      opt_d_pprime sample_instance = []"
    by (simp add: sample_instance_def)
  show ?thesis
    using sample_call e
      output_lengths [of "sample_ext [1, 2, 3, 4, 5, 6, 7, 8, 9] 4" sample_flags sample_instance
        "(0, 0, 0)" 1 sample_bounds]
    by blast
qed

text \<open>
  C10, as amended. On the empty sequence \<^verbatim>\<open>optimize\<close> is not safe: \<open>kNumConstraint\<close> is 0
  and the matrix has no row, the pin rows are written all the same, and the first of
  these writes, at row 0 and column 0, is already outside the matrix. The run ends at
  that write, before \<^verbatim>\<open>CHECK_EQ\<close> is reached.
\<close>

theorem empty_sequence_out_of_range:
  "kNumConstraint [] = 0 \<and>
   rows (affine_constraint (build_constraints flags d_state delta_s [])) = 0 \<and>
   stray (affine_constraint (build_constraints flags d_state delta_s [])) \<noteq> [] \<and>
   hd (stray (affine_constraint (build_constraints flags d_state delta_s []))) = (0, 0) \<and>
   strayed (build_constraints flags d_state delta_s []) \<and>
   optimize ext flags self d_state delta_s [] = Inl Out_of_range"
  by (simp add: build_constraints_empty optimize_empty strayed_def kNumConstraint_def
      kNumParam_def num_var_of_def)

text \<open>
  The witness: the empty sequence with \<open>delta_s = 2\<close>.
\<close>

theorem empty_sequence_out_of_range_witness:
  "rows (affine_constraint (build_constraints sample_flags (1, 2, 3) 2 [])) = 0 \<and>
   hd (stray (affine_constraint (build_constraints sample_flags (1, 2, 3) 2 []))) = (0, 0) \<and>
   strayed (build_constraints sample_flags (1, 2, 3) 2 []) \<and>
   optimize (sample_ext [] 0) sample_flags sample_instance (1, 2, 3) 2 [] = Inl Out_of_range"
  using empty_sequence_out_of_range [of sample_flags "(1, 2, 3)" 2 "sample_ext [] 0" sample_instance]
  by blast

text \<open>
  C10 as stated fails in its last part: the call on the empty sequence ends at the
  out-of-range write and not in \<^verbatim>\<open>CHECK_EQ\<close>, so the row-count assertion does not fire.
\<close>

theorem empty_sequence_never_reaches_check:
  "optimize (sample_ext [] 0) sample_flags sample_instance (0, 0, 0) 1 [] = Inl Out_of_range \<and>
   optimize (sample_ext [] 0) sample_flags sample_instance (0, 0, 0) 1 [] \<noteq>
     Inl (CHECK_EQ_failed 3 0)"
  by (simp add: optimize_empty)

end
